theory Spec2Isabelle
  imports Complex_Main
begin

section \<open>Python values used by the generator\<close>

text \<open>
  The embedding follows \<^verbatim>\<open>mock_data.py\<close>. Python floats are modelled as the reals
  (no NaN, no infinity, no rounding of the arithmetic), Python ints as \<open>int\<close>.
  Every value the program obtains from its random sources or from the wall clock is an
  explicit argument (a record of draws per loop iteration), so each function of the model
  is the function the code computes from its inputs and those draws. An exception is a
  value \<open>Inl e\<close> of a sum type.
\<close>

datatype error = KeyError | ValueError | IndexError | OverflowError | OSError

text \<open>\<^verbatim>\<open>round(x)\<close> on a float: to the nearest integer, a tie to the even one.\<close>

definition py_round :: "real \<Rightarrow> int" where
  "py_round x =
     (let f = \<lfloor>x\<rfloor>; d = x - of_int f
      in if d < 1 / 2 then f else if 1 / 2 < d then f + 1 else if even f then f else f + 1)"

text \<open>\<^verbatim>\<open>round(x, n)\<close>.\<close>

definition round_ndigits :: "real \<Rightarrow> nat \<Rightarrow> real" where
  "round_ndigits x n = of_int (py_round (x * 10 ^ n)) / 10 ^ n"

text \<open>\<^verbatim>\<open>int(x)\<close> on a float truncates towards zero.\<close>

definition py_int :: "real \<Rightarrow> int" where
  "py_int x = (if 0 \<le> x then \<lfloor>x\<rfloor> else \<lceil>x\<rceil>)"

text \<open>Decimal digits of a natural number, and the formats \<^verbatim>\<open>{n:0wd}\<close> and \<^verbatim>\<open>{x:.4f}\<close>.\<close>

fun digits :: "nat \<Rightarrow> string" where
  "digits n =
     (if n < 10 then [''0123456789'' ! n]
      else digits (n div 10) @ [''0123456789'' ! (n mod 10)])"

declare digits.simps [simp del]

definition zfill :: "nat \<Rightarrow> string \<Rightarrow> string" where
  "zfill w s = replicate (w - length s) (CHR ''0'') @ s"

definition fmt_0d :: "nat \<Rightarrow> nat \<Rightarrow> string" where
  "fmt_0d w n = zfill w (digits n)"

definition fmt_4f :: "real \<Rightarrow> string" where
  "fmt_4f x =
     (let r = nat (py_round (\<bar>x\<bar> * 10 ^ 4))
      in (if x < 0 then ''-'' else '''') @ digits (r div 10 ^ 4) @ ''.''
           @ zfill 4 (digits (r mod 10 ^ 4)))"

text \<open>
  \<^verbatim>\<open>np.random.uniform(low, high)\<close> is \<^verbatim>\<open>low + (high - low) * u\<close> for a sample
  \<open>u\<close> of the unit interval; the sample is the draw.
\<close>

definition uniform :: "real \<Rightarrow> real \<Rightarrow> real \<Rightarrow> real" where
  "uniform low high u = low + (high - low) * u"

definition unit_sample :: "real \<Rightarrow> bool" where
  "unit_sample u \<longleftrightarrow> 0 \<le> u \<and> u < 1"

text \<open>\<^verbatim>\<open>random.choice(seq)\<close>: the element at the drawn index; IndexError on an empty sequence.\<close>

definition choice :: "'a list \<Rightarrow> nat \<Rightarrow> error + 'a" where
  "choice seq k = (if seq = [] then Inl IndexError else Inr (seq ! k))"

text \<open>
  \<^verbatim>\<open>np.random.choice(keys, p=weights)\<close>: numpy rejects an empty population, a negative
  weight and weights whose sum is further than \<open>sqrt(eps) = 2^-26\<close> from 1; otherwise it
  normalises the cumulative sums and returns the key at the number of cumulative weights
  that are at most the uniform sample (\<^verbatim>\<open>searchsorted(cdf, u, side='right')\<close>).
\<close>

fun cumsum :: "real \<Rightarrow> real list \<Rightarrow> real list" where
  "cumsum acc [] = []"
| "cumsum acc (p # ps) = (acc + p) # cumsum (acc + p) ps"

definition valid_p :: "real list \<Rightarrow> bool" where
  "valid_p ps \<longleftrightarrow> ps \<noteq> [] \<and> list_all (\<lambda>p. 0 \<le> p) ps \<and> \<bar>sum_list ps - 1\<bar> \<le> 1 / 2 ^ 26"

definition np_choice :: "(string \<times> real) list \<Rightarrow> real \<Rightarrow> error + string" where
  "np_choice pd u =
     (let ps = map snd pd in
      if \<not> valid_p ps then Inl ValueError
      else
        let cdf = map (\<lambda>c. c / sum_list ps) (cumsum 0 ps);
            idx = length (filter (\<lambda>c. c \<le> u) cdf)
        in if idx < length pd then Inr (fst (pd ! idx)) else Inl IndexError)"

section \<open>Naive datetimes and the local time zone\<close>

text \<open>
  A \<^verbatim>\<open>datetime\<close> is kept as the proleptic Gregorian ordinal of its date (day 1 is
  0001-01-01, as \<^verbatim>\<open>date.toordinal\<close>), the second of the day and the microsecond; year,
  month and day are read off the ordinal by the standard library's \<^verbatim>\<open>_ord2ymd\<close>.
  \<open>tzinfo\<close> is \<open>None\<close> for a naive value and \<open>Some off\<close> for an aware value with a
  fixed UTC offset of \<open>off\<close> seconds, which is what \<^verbatim>\<open>datetime.fromisoformat\<close> builds
  from a string that ends in an offset. The attribute \<^verbatim>\<open>fold\<close> is not kept: the program
  converts only results of datetime arithmetic, whose \<^verbatim>\<open>fold\<close> is 0, and never reads it.
\<close>

record datetime =
  ordinal :: int
  second_of_day :: int
  microsecond :: int
  tzinfo :: "int option"

definition MAXORDINAL :: int where
  "MAXORDINAL = 3652059"

definition EPOCH_ORDINAL :: int where
  "EPOCH_ORDINAL = 719163"

definition is_leap :: "int \<Rightarrow> bool" where
  "is_leap y \<longleftrightarrow> y mod 4 = 0 \<and> (y mod 100 \<noteq> 0 \<or> y mod 400 = 0)"

definition days_before_year :: "int \<Rightarrow> int" where
  "days_before_year y = (y - 1) * 365 + (y - 1) div 4 - (y - 1) div 100 + (y - 1) div 400"

definition DAYS_IN_MONTH :: "int list" where
  "DAYS_IN_MONTH = [-1, 31, 28, 31, 30, 31, 30, 31, 31, 30, 31, 30, 31]"

definition DAYS_BEFORE_MONTH :: "int list" where
  "DAYS_BEFORE_MONTH = [-1, 0, 31, 59, 90, 120, 151, 181, 212, 243, 273, 304, 334]"

definition ymd2ord :: "int \<Rightarrow> int \<Rightarrow> int \<Rightarrow> int" where
  "ymd2ord y m d =
     days_before_year y + DAYS_BEFORE_MONTH ! nat m + (if 2 < m \<and> is_leap y then 1 else 0) + d"

definition ord2ymd :: "int \<Rightarrow> int \<times> int \<times> int" where
  "ord2ymd n0 =
     (let n = n0 - 1;
          n400 = n div 146097; n = n mod 146097;
          n100 = n div 36524; n = n mod 36524;
          n4 = n div 1461; n = n mod 1461;
          n1 = n div 365; n = n mod 365;
          year = n400 * 400 + 1 + n100 * 100 + n4 * 4 + n1
      in if n1 = 4 \<or> n100 = 4 then (year - 1, 12, 31)
         else
           let leapyear = (n1 = 3 \<and> (n4 \<noteq> 24 \<or> n100 = 3));
               month = (n + 50) div 32;
               preceding = DAYS_BEFORE_MONTH ! nat month + (if 2 < month \<and> leapyear then 1 else 0)
           in if n < preceding
              then (year, month - 1,
                    n - (preceding - (DAYS_IN_MONTH ! nat (month - 1)
                                       + (if month - 1 = 2 \<and> leapyear then 1 else 0))) + 1)
              else (year, month, n - preceding + 1))"

text \<open>
  The constructor \<^verbatim>\<open>datetime(y, m, d, hh, mm, ss, us)\<close> for a valid date and time; the
  value is naive.
\<close>

definition mk_datetime :: "int \<Rightarrow> int \<Rightarrow> int \<Rightarrow> int \<Rightarrow> int \<Rightarrow> int \<Rightarrow> int \<Rightarrow> datetime" where
  "mk_datetime y m d hh mm ss us =
     \<lparr>ordinal = ymd2ord y m d, second_of_day = hh * 3600 + mm * 60 + ss, microsecond = us,
      tzinfo = None\<rparr>"

definition dt_hour :: "datetime \<Rightarrow> int" where
  "dt_hour t = second_of_day t div 3600"

definition dt_weekday :: "datetime \<Rightarrow> int" where
  "dt_weekday t = (ordinal t + 6) mod 7"

definition dt_month :: "datetime \<Rightarrow> int" where
  "dt_month t = fst (snd (ord2ymd (ordinal t)))"

text \<open>
  \<^verbatim>\<open>t + timedelta(hours=h)\<close>: wall-clock arithmetic that keeps \<open>tzinfo\<close>; the result
  must stay within years 1 to 9999.
\<close>

definition add_hours :: "datetime \<Rightarrow> int \<Rightarrow> error + datetime" where
  "add_hours t h =
     (let total = second_of_day t + 3600 * h;
          d = ordinal t + total div 86400
      in if 0 < d \<and> d \<le> MAXORDINAL
         then Inr \<lparr>ordinal = d, second_of_day = total mod 86400, microsecond = microsecond t,
                  tzinfo = tzinfo t\<rparr>
         else Inl OverflowError)"

text \<open>
  The local time zone is the platform's, not the program's: it is a parameter, given as
  the UTC offset in seconds that is in force at each UTC instant (seconds since the epoch).
  \<open>wall_clock\<close> is the wall-clock time, as seconds since the epoch, shown at an instant.
  The standard library's \<^verbatim>\<open>local\<close> computes it through \<^verbatim>\<open>utc_to_seconds\<close>, which raises
  ValueError when the year shown is outside 1 to 9999.
\<close>

type_synonym zone = "int \<Rightarrow> int"

definition wall_clock :: "zone \<Rightarrow> int \<Rightarrow> int" where
  "wall_clock z u = u + z u"

definition in_years :: "int \<Rightarrow> bool" where
  "in_years w \<longleftrightarrow> 0 < EPOCH_ORDINAL + w div 86400 \<and> EPOCH_ORDINAL + w div 86400 \<le> MAXORDINAL"

definition local :: "zone \<Rightarrow> int \<Rightarrow> error + int" where
  "local z u = (if in_years (wall_clock z u) then Inr (wall_clock z u) else Inl ValueError)"

text \<open>
  \<open>mktime\<close> is the search \<^verbatim>\<open>local_to_seconds\<close> that \<^verbatim>\<open>datetime.timestamp\<close> performs for
  a naive value with \<^verbatim>\<open>fold = 0\<close>: it solves \<open>local u = t\<close> for \<open>u\<close>, preferring the
  earlier solution when the wall-clock time occurs twice and, when the wall-clock time is
  skipped by a transition, returning the later of its two candidates. Each probe of
  \<^verbatim>\<open>local\<close> can raise; the probe one day before a solution does so for every time of
  0001-01-01.
\<close>

definition mktime_second :: "zone \<Rightarrow> int \<Rightarrow> int \<Rightarrow> int \<Rightarrow> int \<Rightarrow> error + int" where
  "mktime_second z t u1 t1 b =
     (let u2 = t - b
      in case local z u2 of
           Inl e \<Rightarrow> Inl e
         | Inr t2 \<Rightarrow> Inr (if t2 = t then u2 else if t1 = t then u1 else max u1 u2))"

definition mktime :: "zone \<Rightarrow> int \<Rightarrow> error + int" where
  "mktime z t =
     (case local z t of
        Inl e \<Rightarrow> Inl e
      | Inr lt \<Rightarrow>
          let a = lt - t; u1 = t - a
          in case local z u1 of
               Inl e \<Rightarrow> Inl e
             | Inr t1 \<Rightarrow>
                 if t1 = t
                 then (case local z (u1 - 86400) of
                         Inl e \<Rightarrow> Inl e
                       | Inr lt' \<Rightarrow>
                           let b = lt' - (u1 - 86400)
                           in if a = b then Inr u1 else mktime_second z t u1 t1 b)
                 else mktime_second z t u1 t1 (t1 - u1))"

definition wall_seconds :: "datetime \<Rightarrow> int" where
  "wall_seconds t = (ordinal t - EPOCH_ORDINAL) * 86400 + second_of_day t"

text \<open>
  \<^verbatim>\<open>t.timestamp()\<close>, a float: for a naive value the search above in the local zone, for
  an aware value the distance to the epoch under the value's own offset, which raises
  nothing.
\<close>

definition timestamp_of :: "zone \<Rightarrow> datetime \<Rightarrow> error + real" where
  "timestamp_of z t =
     (case tzinfo t of
        None \<Rightarrow>
          (case mktime z (wall_seconds t) of
             Inl e \<Rightarrow> Inl e
           | Inr u \<Rightarrow> Inr (of_int u + of_int (microsecond t) / 10 ^ 6))
      | Some off \<Rightarrow> Inr (of_int (wall_seconds t - off) + of_int (microsecond t) / 10 ^ 6))"

text \<open>
  \<^verbatim>\<open>datetime.fromtimestamp(ts)\<close> for an integer \<open>ts\<close>, a naive value in local time. The
  year shown must be within 1 to 9999; to find \<^verbatim>\<open>fold\<close> the library also probes
  \<^verbatim>\<open>local\<close> one day earlier and, when the offset has gone down since, at the instant of
  that change, and a probe can raise.
\<close>

definition fromtimestamp :: "zone \<Rightarrow> int \<Rightarrow> error + datetime" where
  "fromtimestamp z ts =
     (let w = wall_clock z ts;
          result = \<lparr>ordinal = EPOCH_ORDINAL + w div 86400, second_of_day = w mod 86400,
                    microsecond = 0, tzinfo = None\<rparr>
      in if \<not> in_years w then Inl ValueError
         else
           case local z (ts - 86400) of
             Inl e \<Rightarrow> Inl e
           | Inr probe \<Rightarrow>
               let transition = w - probe - 86400
               in if transition < 0
                  then (case local z (ts + transition) of
                          Inl e \<Rightarrow> Inl e
                        | Inr probe' \<Rightarrow> Inr result)
                  else Inr result)"

section \<open>Data model\<close>

record EnergyNode =
  node_id :: string
  location :: string
  latitude :: real
  longitude :: real
  pattern_type :: string
  active :: bool
  registered_at :: int
  multiplier :: real
  density :: string

text \<open>
  The fields \<^verbatim>\<open>node_id\<close>, \<^verbatim>\<open>location\<close> and \<^verbatim>\<open>pattern_type\<close> of a data point carry the
  prefix \<open>dp_\<close>, since a field name belongs to one record.
\<close>

record EnergyDataPoint =
  data_id :: string
  dp_node_id :: string
  kwh :: real
  dp_location :: string
  timestamp :: int
  hour :: int
  day_of_week :: int
  month :: int
  dp_pattern_type :: string
  anomaly :: bool

record UsagePattern =
  baseline_kwh :: real
  peak_kwh :: real
  peak_hours :: "int list"
  weekday_multiplier :: real
  weekend_multiplier :: real
  seasonal_variation :: real
  noise_level :: real

text \<open>
  An entry of the location table: \<^verbatim>\<open>center\<close> is \<open>(center_lat, center_lon)\<close>, the list
  \<^verbatim>\<open>bounds['lat']\<close> is \<open>[lat_lo, lat_hi]\<close>, and \<^verbatim>\<open>bounds['lon']\<close> is \<open>[lon_lo, lon_hi]\<close>.
\<close>

record area =
  name :: string
  center_lat :: real
  center_lon :: real
  lat_lo :: real
  lat_hi :: real
  lon_lo :: real
  lon_hi :: real
  population_density :: string

text \<open>The mutable state of an \<^verbatim>\<open>EnergyDataGenerator\<close>: its two counters.\<close>

record generator =
  node_counter :: nat
  data_counter :: nat

definition init_generator :: generator where
  "init_generator = \<lparr>node_counter = 0, data_counter = 0\<rparr>"

subsection \<open>The catalogs\<close>

definition residential :: UsagePattern where
  "residential = \<lparr>baseline_kwh = 0.5, peak_kwh = 3.5, peak_hours = [18, 19, 20, 21],
     weekday_multiplier = 1.0, weekend_multiplier = 1.2, seasonal_variation = 0.3,
     noise_level = 0.15\<rparr>"

definition commercial :: UsagePattern where
  "commercial = \<lparr>baseline_kwh = 2.0, peak_kwh = 15.0, peak_hours = [9, 10, 11, 14, 15, 16],
     weekday_multiplier = 1.0, weekend_multiplier = 0.3, seasonal_variation = 0.4,
     noise_level = 0.12\<rparr>"

definition industrial :: UsagePattern where
  "industrial = \<lparr>baseline_kwh = 25.0, peak_kwh = 45.0, peak_hours = [8, 9, 10, 13, 14, 15],
     weekday_multiplier = 1.0, weekend_multiplier = 0.8, seasonal_variation = 0.2,
     noise_level = 0.08\<rparr>"

definition datacenter :: UsagePattern where
  "datacenter = \<lparr>baseline_kwh = 50.0, peak_kwh = 65.0, peak_hours = [14, 15, 16],
     weekday_multiplier = 1.0, weekend_multiplier = 0.98, seasonal_variation = 0.1,
     noise_level = 0.05\<rparr>"

definition mixed :: UsagePattern where
  "mixed = \<lparr>baseline_kwh = 5.0, peak_kwh = 20.0, peak_hours = [9, 10, 11, 18, 19, 20],
     weekday_multiplier = 1.0, weekend_multiplier = 0.7, seasonal_variation = 0.25,
     noise_level = 0.2\<rparr>"

definition patterns :: "string \<Rightarrow> UsagePattern option" where
  "patterns = map_of
     [(''residential'', residential), (''commercial'', commercial),
      (''industrial'', industrial), (''datacenter'', datacenter), (''mixed'', mixed)]"

definition urban_areas :: "area list" where
  "urban_areas =
     [\<lparr>name = ''New York'', center_lat = 40.7128, center_lon = -74.0060,
        lat_lo = 40.4774, lat_hi = 40.9176, lon_lo = -74.2591, lon_hi = -73.7004,
        population_density = ''very_high''\<rparr>,
      \<lparr>name = ''Los Angeles'', center_lat = 34.0522, center_lon = -118.2437,
        lat_lo = 33.7037, lat_hi = 34.3373, lon_lo = -118.6681, lon_hi = -118.1553,
        population_density = ''high''\<rparr>,
      \<lparr>name = ''Chicago'', center_lat = 41.8781, center_lon = -87.6298,
        lat_lo = 41.6444, lat_hi = 42.0230, lon_lo = -87.9401, lon_hi = -87.5240,
        population_density = ''high''\<rparr>,
      \<lparr>name = ''Houston'', center_lat = 29.7604, center_lon = -95.3698,
        lat_lo = 29.5200, lat_hi = 30.1100, lon_lo = -95.8230, lon_hi = -95.0140,
        population_density = ''medium''\<rparr>,
      \<lparr>name = ''Phoenix'', center_lat = 33.4484, center_lon = -112.0740,
        lat_lo = 33.2000, lat_hi = 33.7000, lon_lo = -112.3500, lon_hi = -111.8000,
        population_density = ''medium''\<rparr>]"

definition suburban_areas :: "area list" where
  "suburban_areas =
     [\<lparr>name = ''San Jose'', center_lat = 37.3382, center_lon = -121.8863,
        lat_lo = 37.1000, lat_hi = 37.5000, lon_lo = -122.1000, lon_hi = -121.6000,
        population_density = ''medium''\<rparr>,
      \<lparr>name = ''Austin'', center_lat = 30.2672, center_lon = -97.7431,
        lat_lo = 30.0000, lat_hi = 30.5000, lon_lo = -98.0000, lon_hi = -97.5000,
        population_density = ''medium''\<rparr>]"

definition rural_areas :: "area list" where
  "rural_areas =
     [\<lparr>name = ''Montana Rural'', center_lat = 47.0527, center_lon = -109.6333,
        lat_lo = 45.0000, lat_hi = 49.0000, lon_lo = -116.0000, lon_hi = -104.0000,
        population_density = ''low''\<rparr>,
      \<lparr>name = ''Kansas Rural'', center_lat = 38.5266, center_lon = -96.7265,
        lat_lo = 37.0000, lat_hi = 40.0000, lon_lo = -102.0000, lon_hi = -94.5000,
        population_density = ''low''\<rparr>]"

definition metropolitan_areas :: "string \<Rightarrow> area list option" where
  "metropolitan_areas = map_of
     [(''urban'', urban_areas), (''suburban'', suburban_areas), (''rural'', rural_areas)]"

section \<open>generate_nodes\<close>

text \<open>
  What one iteration of the node loop takes from the random sources, in the order the code
  draws it: the unit sample of \<^verbatim>\<open>np.random.choice\<close>, the index of
  \<^verbatim>\<open>random.choice(areas)\<close>, the unit samples of the two coordinate draws, the value of
  \<^verbatim>\<open>random.random()\<close>, the value of \<^verbatim>\<open>random.randint(0, 86400 * 30)\<close> and the unit
  sample of the multiplier draw. The reading of the clock, \<^verbatim>\<open>int(time.time())\<close>, is a
  separate argument.
\<close>

record node_draw =
  pattern_u :: real
  area_idx :: nat
  lat_u :: real
  lon_u :: real
  active_r :: real
  reg_offset :: int
  mult_u :: real

definition default_distribution :: "(string \<times> real) list" where
  "default_distribution =
     [(''residential'', 0.60), (''commercial'', 0.25), (''industrial'', 0.10),
      (''datacenter'', 0.05)]"

text \<open>The body of the loop: the node built at the current value of the node counter.\<close>

definition make_node ::
  "area list \<Rightarrow> (string \<times> real) list \<Rightarrow> generator \<Rightarrow> node_draw \<Rightarrow> int \<Rightarrow> error + EnergyNode" where
  "make_node areas pd g dr now =
     (case np_choice pd (pattern_u dr) of
        Inl e \<Rightarrow> Inl e
      | Inr ptype \<Rightarrow>
          (case choice areas (area_idx dr) of
             Inl e \<Rightarrow> Inl e
           | Inr ar \<Rightarrow>
               let lat = uniform (lat_lo ar) (lat_hi ar) (lat_u dr);
                   lon = uniform (lon_lo ar) (lon_hi ar) (lon_u dr);
                   lat = (if ptype = ''commercial'' then lat * 0.7 + center_lat ar * 0.3 else lat);
                   lon = (if ptype = ''commercial'' then lon * 0.7 + center_lon ar * 0.3 else lon)
               in Inr \<lparr>node_id = ''node_'' @ fmt_0d 6 (node_counter g),
                        location = ''lat:'' @ fmt_4f lat @ '',lon:'' @ fmt_4f lon,
                        latitude = lat,
                        longitude = lon,
                        pattern_type = ptype,
                        active = (0.05 < active_r dr),
                        registered_at = now - reg_offset dr,
                        multiplier = uniform 0.8 1.3 (mult_u dr),
                        density = population_density ar\<rparr>))"

fun nodes_loop ::
  "area list \<Rightarrow> (string \<times> real) list \<Rightarrow> (nat \<Rightarrow> node_draw) \<Rightarrow> (nat \<Rightarrow> int) \<Rightarrow> nat list \<Rightarrow>
   generator \<Rightarrow> error + (EnergyNode list \<times> generator)" where
  "nodes_loop areas pd draws clock [] g = Inr ([], g)"
| "nodes_loop areas pd draws clock (i # rest) g =
     (case make_node areas pd g (draws i) (clock i) of
        Inl e \<Rightarrow> Inl e
      | Inr node \<Rightarrow>
          (case nodes_loop areas pd draws clock rest (g\<lparr>node_counter := node_counter g + 1\<rparr>) of
             Inl e \<Rightarrow> Inl e
           | Inr (nodes, g') \<Rightarrow> Inr (node # nodes, g')))"

text \<open>
  \<^verbatim>\<open>generate_nodes(count, location_pattern, pattern_distribution)\<close>; \<open>draws i\<close> and
  \<open>clock i\<close> are the draws and the clock reading of iteration \<open>i\<close>. The default of
  \<^verbatim>\<open>dict.get\<close> is evaluated before the lookup, as Python evaluates arguments.
\<close>

definition generate_nodes ::
  "generator \<Rightarrow> int \<Rightarrow> string \<Rightarrow> (string \<times> real) list option \<Rightarrow> (nat \<Rightarrow> node_draw) \<Rightarrow>
   (nat \<Rightarrow> int) \<Rightarrow> error + (EnergyNode list \<times> generator)" where
  "generate_nodes g count location_pattern pattern_distribution draws clock =
     (let pd = (case pattern_distribution of None \<Rightarrow> default_distribution | Some d \<Rightarrow> d)
      in case metropolitan_areas ''urban'' of
           None \<Rightarrow> Inl KeyError
         | Some dflt \<Rightarrow>
             let areas = (case metropolitan_areas location_pattern of
                            None \<Rightarrow> dflt | Some a \<Rightarrow> a)
             in nodes_loop areas pd draws clock [0..<nat count] g)"

section \<open>generate_time_series\<close>

text \<open>
  The draws of one hour: the sample of \<^verbatim>\<open>np.random.normal(0, noise_level)\<close>, the value of
  \<^verbatim>\<open>random.random()\<close>, and, used only for an anomaly, the unit samples of the low and the
  high factor and the index picked by \<^verbatim>\<open>random.choice\<close> among the two.
\<close>

record hour_draw =
  noise :: real
  anomaly_r :: real
  low_u :: real
  high_u :: real
  pick :: nat

definition anomaly_factor :: "hour_draw \<Rightarrow> real" where
  "anomaly_factor dr = [uniform 0.1 0.3 (low_u dr), uniform 2.0 5.0 (high_u dr)] ! pick dr"

text \<open>The value of \<^verbatim>\<open>kwh\<close> before the floor and the rounding.\<close>

definition raw_kwh :: "EnergyNode \<Rightarrow> UsagePattern \<Rightarrow> datetime \<Rightarrow> real \<Rightarrow> hour_draw \<Rightarrow> real" where
  "raw_kwh node pattern current_time anomaly_probability dr =
     (let hour_of_day = dt_hour current_time;
          day_of_week = dt_weekday current_time;
          month = dt_month current_time;
          is_weekend = (5 \<le> day_of_week);
          kwh = (if hour_of_day \<in> set (peak_hours pattern) then peak_kwh pattern
                 else baseline_kwh pattern);
          kwh = (if is_weekend then kwh * weekend_multiplier pattern else kwh);
          seasonal_factor = 1 + seasonal_variation pattern * sin (of_int (month - 2) * pi / 6);
          kwh = kwh * seasonal_factor;
          kwh = kwh * multiplier node;
          kwh = kwh * (1 + noise dr);
          is_anomaly = (anomaly_r dr < anomaly_probability)
      in if is_anomaly then kwh * anomaly_factor dr else kwh)"

text \<open>
  One iteration of the hour loop. \<^verbatim>\<open>np.random.normal\<close> rejects a negative scale, and
  \<^verbatim>\<open>current_time.timestamp()\<close> can raise when the data point is built.
\<close>

definition node_hour ::
  "zone \<Rightarrow> generator \<Rightarrow> EnergyNode \<Rightarrow> UsagePattern \<Rightarrow> datetime \<Rightarrow> real \<Rightarrow> int \<Rightarrow> hour_draw \<Rightarrow>
   error + EnergyDataPoint" where
  "node_hour z g node pattern start_date anomaly_probability h dr =
     (case add_hours start_date h of
        Inl e \<Rightarrow> Inl e
      | Inr current_time \<Rightarrow>
          if noise_level pattern < 0 then Inl ValueError
          else
            let kwh = max 0.1 (raw_kwh node pattern current_time anomaly_probability dr)
            in case timestamp_of z current_time of
                 Inl e \<Rightarrow> Inl e
               | Inr ts \<Rightarrow>
                   Inr \<lparr>data_id = ''data_'' @ fmt_0d 8 (data_counter g),
                        dp_node_id = node_id node,
                        kwh = round_ndigits kwh 3,
                        dp_location = location node,
                        timestamp = py_int ts,
                        hour = dt_hour current_time,
                        day_of_week = dt_weekday current_time,
                        month = dt_month current_time,
                        dp_pattern_type = pattern_type node,
                        anomaly = (anomaly_r dr < anomaly_probability)\<rparr>)"

fun hours_loop ::
  "zone \<Rightarrow> EnergyNode \<Rightarrow> UsagePattern \<Rightarrow> datetime \<Rightarrow> real \<Rightarrow> (nat \<Rightarrow> hour_draw) \<Rightarrow> nat list \<Rightarrow>
   generator \<Rightarrow> error + (EnergyDataPoint list \<times> generator)" where
  "hours_loop z node pattern start_date ap draws [] g = Inr ([], g)"
| "hours_loop z node pattern start_date ap draws (h # rest) g =
     (case node_hour z g node pattern start_date ap (int h) (draws h) of
        Inl e \<Rightarrow> Inl e
      | Inr point \<Rightarrow>
          (case hours_loop z node pattern start_date ap draws rest
                  (g\<lparr>data_counter := data_counter g + 1\<rparr>) of
             Inl e \<Rightarrow> Inl e
           | Inr (points, g') \<Rightarrow> Inr (point # points, g')))"

definition generate_node_time_series ::
  "zone \<Rightarrow> generator \<Rightarrow> EnergyNode \<Rightarrow> UsagePattern \<Rightarrow> datetime \<Rightarrow> int \<Rightarrow> real \<Rightarrow>
   (nat \<Rightarrow> hour_draw) \<Rightarrow> error + (EnergyDataPoint list \<times> generator)" where
  "generate_node_time_series z g node pattern start_date duration_hours anomaly_probability draws =
     hours_loop z node pattern start_date anomaly_probability draws [0..<nat duration_hours] g"

text \<open>
  The loop over the nodes; \<open>draws k\<close> are the hourly draws for the node at position \<open>k\<close>
  of the input list. An unknown pattern type is a KeyError of the dictionary lookup.
\<close>

fun series_loop ::
  "zone \<Rightarrow> datetime \<Rightarrow> int \<Rightarrow> real \<Rightarrow> (nat \<Rightarrow> nat \<Rightarrow> hour_draw) \<Rightarrow> nat \<Rightarrow> EnergyNode list \<Rightarrow>
   generator \<Rightarrow> error + (EnergyDataPoint list \<times> generator)" where
  "series_loop z start_date duration_hours ap draws k [] g = Inr ([], g)"
| "series_loop z start_date duration_hours ap draws k (node # rest) g =
     (if \<not> active node then series_loop z start_date duration_hours ap draws (k + 1) rest g
      else
        case patterns (pattern_type node) of
          None \<Rightarrow> Inl KeyError
        | Some pattern \<Rightarrow>
            (case generate_node_time_series z g node pattern start_date duration_hours ap
                    (draws k) of
               Inl e \<Rightarrow> Inl e
             | Inr (node_data, g') \<Rightarrow>
                 (case series_loop z start_date duration_hours ap draws (k + 1) rest g' of
                    Inl e \<Rightarrow> Inl e
                  | Inr (points, g'') \<Rightarrow> Inr (node_data @ points, g''))))"

definition generate_time_series ::
  "zone \<Rightarrow> generator \<Rightarrow> EnergyNode list \<Rightarrow> datetime \<Rightarrow> int \<Rightarrow> real \<Rightarrow>
   (nat \<Rightarrow> nat \<Rightarrow> hour_draw) \<Rightarrow> error + (EnergyDataPoint list \<times> generator)" where
  "generate_time_series z g nodes start_date duration_hours anomaly_probability draws =
     series_loop z start_date duration_hours anomaly_probability draws 0 nodes g"

section \<open>merge_with_kaggle_data\<close>

text \<open>
  A \<^verbatim>\<open>DataFrame\<close> is its column names and its rows, each row a list of cells in column
  order. A cell is missing (\<^verbatim>\<open>pd.isna\<close> holds), a number that is an instance of Python's
  \<^verbatim>\<open>int\<close> or \<^verbatim>\<open>float\<close> (\<^verbatim>\<open>numpy.float64\<close> is one), a \<^verbatim>\<open>numpy.int64\<close>, which is an
  instance of neither and is what a row of an all-integer table holds, or a string. What
  the file system and pandas contribute is a parameter: \<open>read_csv\<close> maps a path to the
  table or to the exception raised, \<open>float_of_str\<close> is \<^verbatim>\<open>float\<close> on a string and
  \<open>to_datetime\<close> is \<^verbatim>\<open>int(pd.to_datetime(s).timestamp())\<close> on a string, both \<open>None\<close>
  where Python raises ValueError or TypeError, and \<open>str_of_num\<close> is \<^verbatim>\<open>str\<close> on a number.
\<close>

datatype cell = Missing | Num real | NpInt int | Str string

record table =
  columns :: "string list"
  rows :: "cell list list"

record pandas =
  read_csv :: "string \<Rightarrow> error + table"
  float_of_str :: "string \<Rightarrow> real option"
  to_datetime :: "string \<Rightarrow> int option"
  str_of_num :: "real \<Rightarrow> string"

text \<open>\<^verbatim>\<open>str.lower\<close> on ASCII letters, and \<^verbatim>\<open>sub in s\<close> on strings.\<close>

definition lower_char :: "char \<Rightarrow> char" where
  "lower_char c =
     (case map_of (zip ''ABCDEFGHIJKLMNOPQRSTUVWXYZ'' ''abcdefghijklmnopqrstuvwxyz'') c of
        None \<Rightarrow> c | Some l \<Rightarrow> l)"

definition lower :: "string \<Rightarrow> string" where
  "lower s = map lower_char s"

fun contains :: "string \<Rightarrow> string \<Rightarrow> bool" where
  "contains [] sub = (sub = [])"
| "contains (c # cs) sub = (take (length sub) (c # cs) = sub \<or> contains cs sub)"

definition column_mappings :: "(string \<times> string list) list" where
  "column_mappings =
     [(''energy'', [''energy'', ''kwh'', ''consumption'', ''usage'', ''power'']),
      (''timestamp'', [''timestamp'', ''datetime'', ''date_time'', ''time'', ''date'']),
      (''meter_id'', [''meter_id'', ''id'', ''meter'', ''device_id'', ''user_id''])]"

text \<open>The first column whose lower-cased name contains one of the lower-cased candidates.\<close>

definition detect_column :: "string list \<Rightarrow> string list \<Rightarrow> string option" where
  "detect_column cols candidates =
     find (\<lambda>col. list_ex (\<lambda>candidate. contains (lower col) (lower candidate)) candidates) cols"

definition detect_columns :: "table \<Rightarrow> (string \<times> string) list" where
  "detect_columns df =
     concat (map (\<lambda>(target, candidates).
                    case detect_column (columns df) candidates of
                      None \<Rightarrow> [] | Some col \<Rightarrow> [(target, col)])
                 column_mappings)"

text \<open>\<^verbatim>\<open>df.columns[i]\<close>, and \<^verbatim>\<open>row[column]\<close> with \<^verbatim>\<open>column in row\<close> as \<open>Some\<close>.\<close>

definition column_at :: "table \<Rightarrow> nat \<Rightarrow> error + string" where
  "column_at df i = (if i < length (columns df) then Inr (columns df ! i) else Inl IndexError)"

definition row_get :: "table \<Rightarrow> cell list \<Rightarrow> string \<Rightarrow> cell option" where
  "row_get df row column = map_of (zip (columns df) row) column"

text \<open>
  The draws of one row of the sample: the value of \<^verbatim>\<open>random.randint(0, 86400 * 365)\<close> of
  the fallback timestamp, the token of \<^verbatim>\<open>fake.uuid4()\<close>, the index and the two unit
  samples of the synthetic location and the unit sample of the variation factor.
\<close>

record merge_draw =
  ts_offset :: int
  uuid :: string
  loc_area_idx :: nat
  loc_lat_u :: real
  loc_lon_u :: real
  vary_u :: real

definition safe_extract_numeric :: "pandas \<Rightarrow> table \<Rightarrow> cell list \<Rightarrow> string \<Rightarrow> real option" where
  "safe_extract_numeric pd_lib df row column =
     (case row_get df row column of
        None \<Rightarrow> None
      | Some Missing \<Rightarrow> None
      | Some (Num v) \<Rightarrow> Some v
      | Some (NpInt n) \<Rightarrow> Some (of_int n)
      | Some (Str s) \<Rightarrow> float_of_str pd_lib s)"

text \<open>
  A \<^verbatim>\<open>numpy.int64\<close> fails the \<^verbatim>\<open>isinstance\<close> test and reaches \<^verbatim>\<open>pd.to_datetime\<close>, which
  reads it as nanoseconds since the epoch (the least 64-bit value as \<^verbatim>\<open>NaT\<close>, whose
  \<^verbatim>\<open>timestamp()\<close> raises ValueError); \<^verbatim>\<open>Timestamp.timestamp()\<close> is the seconds rounded to
  six decimals.
\<close>

definition safe_extract_timestamp ::
  "pandas \<Rightarrow> table \<Rightarrow> cell list \<Rightarrow> string \<Rightarrow> int \<Rightarrow> merge_draw \<Rightarrow> int option" where
  "safe_extract_timestamp pd_lib df row column now dr =
     (let fallback = Some (now - ts_offset dr)
      in case row_get df row column of
           None \<Rightarrow> fallback
         | Some Missing \<Rightarrow> None
         | Some (Num v) \<Rightarrow> (if 10 ^ 9 < v then Some (py_int v) else Some (py_int (v * 1000)))
         | Some (NpInt n) \<Rightarrow>
             (if n = - (2 ^ 63) then fallback
              else Some (py_int (round_ndigits (of_int n / 10 ^ 9) 6)))
         | Some (Str s) \<Rightarrow> (case to_datetime pd_lib s of Some t \<Rightarrow> Some t | None \<Rightarrow> fallback))"

text \<open>\<^verbatim>\<open>str\<close> on an integer.\<close>

definition str_of_int :: "int \<Rightarrow> string" where
  "str_of_int n = (if n < 0 then ''-'' else []) @ digits (nat \<bar>n\<bar>)"

definition safe_extract_string :: "pandas \<Rightarrow> table \<Rightarrow> cell list \<Rightarrow> string \<Rightarrow> merge_draw \<Rightarrow> string" where
  "safe_extract_string pd_lib df row column dr =
     (case row_get df row column of
        None \<Rightarrow> uuid dr
      | Some Missing \<Rightarrow> uuid dr
      | Some (Num v) \<Rightarrow> str_of_num pd_lib v
      | Some (NpInt n) \<Rightarrow> str_of_int n
      | Some (Str s) \<Rightarrow> s)"

record location_data =
  ld_location :: string
  ld_latitude :: real
  ld_longitude :: real

definition generate_realistic_location :: "merge_draw \<Rightarrow> error + location_data" where
  "generate_realistic_location dr =
     (case metropolitan_areas ''urban'' of
        None \<Rightarrow> Inl KeyError
      | Some areas \<Rightarrow>
          (case choice areas (loc_area_idx dr) of
             Inl e \<Rightarrow> Inl e
           | Inr ar \<Rightarrow>
               let lat = uniform (lat_lo ar) (lat_hi ar) (loc_lat_u dr);
                   lon = uniform (lon_lo ar) (lon_hi ar) (loc_lon_u dr)
               in Inr \<lparr>ld_location = ''lat:'' @ fmt_4f lat @ '',lon:'' @ fmt_4f lon,
                        ld_latitude = lat, ld_longitude = lon\<rparr>))"

definition classify :: "real \<Rightarrow> string" where
  "classify kwh_varied =
     (if kwh_varied < 5 then ''residential''
      else if kwh_varied < 20 then ''commercial''
      else if kwh_varied < 50 then ''industrial''
      else ''datacenter'')"

text \<open>
  The body of the loop over the sampled rows: \<open>Inr None\<close> is \<^verbatim>\<open>continue\<close>,
  \<open>Inr (Some p)\<close> the appended point, \<open>Inl e\<close> an exception that leaves the loop. The
  defaults of the two \<^verbatim>\<open>dict.get\<close> calls, \<^verbatim>\<open>df.columns[0]\<close> and \<^verbatim>\<open>df.columns[1]\<close>,
  are evaluated on every row.
\<close>

definition merge_row ::
  "zone \<Rightarrow> pandas \<Rightarrow> table \<Rightarrow> (string \<times> string) list \<Rightarrow> generator \<Rightarrow> cell list \<Rightarrow> merge_draw \<Rightarrow>
   int \<Rightarrow> error + EnergyDataPoint option" where
  "merge_row z pd_lib df detected_columns g row dr now =
     (case column_at df 0 of
        Inl e \<Rightarrow> Inl e
      | Inr c0 \<Rightarrow>
     let kwh_opt = safe_extract_numeric pd_lib df row
                 (case map_of detected_columns ''energy'' of None \<Rightarrow> c0 | Some c \<Rightarrow> c)
     in case column_at df 1 of
        Inl e \<Rightarrow> Inl e
      | Inr c1 \<Rightarrow>
     let ts_opt = safe_extract_timestamp pd_lib df row
                (case map_of detected_columns ''timestamp'' of None \<Rightarrow> c1 | Some c \<Rightarrow> c) now dr;
         meter_id = safe_extract_string pd_lib df row
                (case map_of detected_columns ''meter_id'' of None \<Rightarrow> ''synthetic'' | Some c \<Rightarrow> c)
                dr
     in case kwh_opt of
          None \<Rightarrow> Inr None
        | Some kwh_value \<Rightarrow>
        (case ts_opt of
          None \<Rightarrow> Inr None
        | Some ts \<Rightarrow>
            (case generate_realistic_location dr of
               Inl e \<Rightarrow> Inl e
             | Inr loc \<Rightarrow>
                 let kwh_varied = kwh_value * uniform 0.8 1.2 (vary_u dr);
                     ptype = classify kwh_varied
                 in case fromtimestamp z ts of
                      Inl e \<Rightarrow> Inl e
                    | Inr dt \<Rightarrow>
                        Inr (Some \<lparr>data_id = ''kaggle_'' @ fmt_0d 8 (data_counter g),
                                    dp_node_id = ''kaggle_'' @ meter_id,
                                    kwh = round_ndigits kwh_varied 3,
                                    dp_location = ld_location loc,
                                    timestamp = ts,
                                    hour = dt_hour dt,
                                    day_of_week = dt_weekday dt,
                                    month = dt_month dt,
                                    dp_pattern_type = ptype,
                                    anomaly = False\<rparr>))))"

text \<open>
  The loop; \<open>i\<close> counts the rows of the sample, for the draws and the clock. The
  generator is returned in every case: an exception does not undo the increments of the
  data counter made before it.
\<close>

fun merge_loop ::
  "zone \<Rightarrow> pandas \<Rightarrow> table \<Rightarrow> (string \<times> string) list \<Rightarrow> (nat \<Rightarrow> merge_draw) \<Rightarrow> (nat \<Rightarrow> int) \<Rightarrow>
   nat \<Rightarrow> cell list list \<Rightarrow> generator \<Rightarrow> (error + EnergyDataPoint list) \<times> generator" where
  "merge_loop z pd_lib df detected draws clock i [] g = (Inr [], g)"
| "merge_loop z pd_lib df detected draws clock i (row # rest) g =
     (case merge_row z pd_lib df detected g row (draws i) (clock i) of
        Inl e \<Rightarrow> (Inl e, g)
      | Inr None \<Rightarrow> merge_loop z pd_lib df detected draws clock (i + 1) rest g
      | Inr (Some point) \<Rightarrow>
          (case merge_loop z pd_lib df detected draws clock (i + 1) rest
                  (g\<lparr>data_counter := data_counter g + 1\<rparr>) of
             (Inl e, g') \<Rightarrow> (Inl e, g')
           | (Inr points, g') \<Rightarrow> (Inr (point # points), g')))"

text \<open>
  \<^verbatim>\<open>df.sample(n)\<close>: the rows at the drawn positions, which are \<open>n\<close> distinct positions
  of the table; a negative \<open>n\<close> is a ValueError.
\<close>

definition sample :: "table \<Rightarrow> int \<Rightarrow> nat list \<Rightarrow> error + cell list list" where
  "sample df n positions =
     (if n < 0 then Inl ValueError else Inr (map (\<lambda>k. rows df ! k) positions))"

definition valid_sample :: "table \<Rightarrow> int \<Rightarrow> nat list \<Rightarrow> bool" where
  "valid_sample df n positions \<longleftrightarrow>
     length positions = nat n \<and> distinct positions \<and> list_all (\<lambda>k. k < length (rows df)) positions"

text \<open>The statements inside \<^verbatim>\<open>try\<close>.\<close>

definition merge_body ::
  "zone \<Rightarrow> pandas \<Rightarrow> generator \<Rightarrow> string \<Rightarrow> int \<Rightarrow> nat list \<Rightarrow> (nat \<Rightarrow> merge_draw) \<Rightarrow> (nat \<Rightarrow> int) \<Rightarrow>
   (error + EnergyDataPoint list) \<times> generator" where
  "merge_body z pd_lib g kaggle_csv_path sample_size positions draws clock =
     (case read_csv pd_lib kaggle_csv_path of
        Inl e \<Rightarrow> (Inl e, g)
      | Inr df \<Rightarrow>
          let detected_columns = detect_columns df
          in case sample df (min sample_size (int (length (rows df)))) positions of
               Inl e \<Rightarrow> (Inl e, g)
             | Inr sample_df \<Rightarrow> merge_loop z pd_lib df detected_columns draws clock 0 sample_df g)"

text \<open>\<^verbatim>\<open>merge_with_kaggle_data\<close>: \<^verbatim>\<open>except Exception\<close> turns every exception into \<open>[]\<close>.\<close>

definition merge_with_kaggle_data ::
  "zone \<Rightarrow> pandas \<Rightarrow> generator \<Rightarrow> string \<Rightarrow> int \<Rightarrow> nat list \<Rightarrow> (nat \<Rightarrow> merge_draw) \<Rightarrow> (nat \<Rightarrow> int) \<Rightarrow>
   EnergyDataPoint list \<times> generator" where
  "merge_with_kaggle_data z pd_lib g kaggle_csv_path sample_size positions draws clock =
     (case merge_body z pd_lib g kaggle_csv_path sample_size positions draws clock of
        (Inl e, g') \<Rightarrow> ([], g')
      | (Inr data_points, g') \<Rightarrow> (data_points, g'))"

section \<open>Concrete inputs and notions used in the statements\<close>

definition ex_node_draw :: node_draw where
  "ex_node_draw = \<lparr>pattern_u = 0.7, area_idx = 1, lat_u = 0.5, lon_u = 0.25, active_r = 0.5,
     reg_offset = 100, mult_u = 0.5\<rparr>"

definition utc :: zone where
  "utc = (\<lambda>u. 0)"

definition ex_table :: table where
  "ex_table = \<lparr>columns = [''id'', ''kwh'', ''time''],
     rows = [[Str ''m1'', Num 4.9996, Num 1700000000],
             [Str ''m2'', Num 1, Missing],
             [Missing, Num 0, Str ''bad'']]\<rparr>"

definition ex_pandas :: pandas where
  "ex_pandas = \<lparr>read_csv = (\<lambda>path. if path = ''ok.csv'' then Inr ex_table else Inl OSError),
     float_of_str = (\<lambda>s. None), to_datetime = (\<lambda>s. None), str_of_num = (\<lambda>v. ''1'')\<rparr>"

definition ex_merge_draw :: merge_draw where
  "ex_merge_draw = \<lparr>ts_offset = 1000, uuid = ''u-1'', loc_area_idx = 0, loc_lat_u = 0.5,
     loc_lon_u = 0.5, vary_u = 0.5\<rparr>"

text \<open>
  The columns a row is read from, once \<^verbatim>\<open>df.columns[0]\<close> and \<^verbatim>\<open>df.columns[1]\<close> exist, and
  the rows the loop keeps: those whose two extractions both return a value.
\<close>

definition energy_column :: "table \<Rightarrow> (string \<times> string) list \<Rightarrow> string" where
  "energy_column df detected =
     (case map_of detected ''energy'' of None \<Rightarrow> columns df ! 0 | Some c \<Rightarrow> c)"

definition timestamp_column :: "table \<Rightarrow> (string \<times> string) list \<Rightarrow> string" where
  "timestamp_column df detected =
     (case map_of detected ''timestamp'' of None \<Rightarrow> columns df ! 1 | Some c \<Rightarrow> c)"

definition row_kept :: "pandas \<Rightarrow> table \<Rightarrow> (string \<times> string) list \<Rightarrow> cell list \<Rightarrow> bool" where
  "row_kept pd_lib df detected row \<longleftrightarrow>
     safe_extract_numeric pd_lib df row (energy_column df detected) \<noteq> None
     \<and> row_get df row (timestamp_column df detected) \<noteq> Some Missing"

definition ex_node :: EnergyNode where
  "ex_node = \<lparr>node_id = ''node_000000'', location = ''lat:40.7000,lon:-74.0000'',
     latitude = 40.7, longitude = -74, pattern_type = ''residential'', active = True,
     registered_at = 1700000000, multiplier = 1, density = ''very_high''\<rparr>"

definition ex_hour_draw :: hour_draw where
  "ex_hour_draw = \<lparr>noise = 0, anomaly_r = 0.5, low_u = 0.5, high_u = 0.5, pick = 0\<rparr>"

text \<open>Saturday, 10 February 2024, midnight.\<close>

definition ex_start :: datetime where
  "ex_start = mk_datetime 2024 2 10 0 0 0 0"

text \<open>
  Hour \<open>h\<close> of a window is usable when \<open>start_date + h\<close> hours is a datetime and its
  \<^verbatim>\<open>timestamp()\<close> returns.
\<close>

definition hour_converts :: "zone \<Rightarrow> datetime \<Rightarrow> int \<Rightarrow> bool" where
  "hour_converts z start_date h =
     (case add_hours start_date h of
        Inl e \<Rightarrow> False
      | Inr t \<Rightarrow> (case timestamp_of z t of Inl e \<Rightarrow> False | Inr ts \<Rightarrow> True))"




text \<open>
  The position in the output of the point of row \<open>k\<close> of a sample: the number of kept rows
  before it.
\<close>

definition kept_before ::
  "pandas \<Rightarrow> table \<Rightarrow> (string \<times> string) list \<Rightarrow> cell list list \<Rightarrow> nat \<Rightarrow> nat" where
  "kept_before pd_lib df detected rws k = length (filter (row_kept pd_lib df detected) (take k rws))"


text \<open>Midnight of 1 January of year 1, the first datetime.\<close>

definition ex_first_day :: datetime where
  "ex_first_day = mk_datetime 1 1 1 0 0 0 0"




section \<open>Properties\<close>

lemma cumsum_total: "ps \<noteq> [] \<Longrightarrow> acc + sum_list ps \<in> set (cumsum acc ps)"
proof (induction ps arbitrary: acc)
  case Nil
  then show ?case by simp
next
  case (Cons p ps)
  show ?case
  proof (cases "ps = []")
    case True
    then show ?thesis by simp
  next
    case False
    from Cons.IH [OF False, of "acc + p"] show ?thesis by (simp add: add.assoc)
  qed
qed

lemma length_cumsum [simp]: "length (cumsum acc ps) = length ps"
  by (induction ps arbitrary: acc) auto

lemma np_choice_ok:
  assumes "valid_p (map snd pd)" and "unit_sample u"
  shows "\<exists>k < length pd. np_choice pd u = Inr (fst (pd ! k))"
proof -
  let ?ps = "map snd pd"
  let ?cdf = "map (\<lambda>c. c / sum_list ?ps) (cumsum 0 ?ps)"
  from assms(1) have ne: "?ps \<noteq> []" and s: "\<bar>sum_list ?ps - 1\<bar> \<le> 1 / 2 ^ 26"
    by (simp_all add: valid_p_def)
  have "(1::real) / 2 ^ 26 < 1" by simp
  with s have pos: "0 < sum_list ?ps" by linarith
  from cumsum_total [OF ne, of 0] have "sum_list ?ps \<in> set (cumsum 0 ?ps)" by simp
  then have "sum_list ?ps / sum_list ?ps \<in> set ?cdf" by (simp only: set_map) (rule imageI)
  with pos have one: "1 \<in> set ?cdf" by simp
  from assms(2) have "\<not> (1::real) \<le> u" by (simp add: unit_sample_def)
  with one have "length (filter (\<lambda>c. c \<le> u) ?cdf) < length ?cdf"
    by (rule length_filter_less)
  then have "length (filter (\<lambda>c. c \<le> u) ?cdf) < length pd" by simp
  with assms(1) show ?thesis
    unfolding np_choice_def Let_def by (intro exI [of _ "length (filter (\<lambda>c. c \<le> u) ?cdf)"]) simp
qed

lemma make_node_ok:
  assumes "valid_p (map snd pd)" and "unit_sample (pattern_u dr)" and "areas \<noteq> []"
  shows "\<exists>node. make_node areas pd g dr now = Inr node"
proof -
  from np_choice_ok [OF assms(1,2)] obtain k where "np_choice pd (pattern_u dr) = Inr (fst (pd ! k))"
    by blast
  with assms(3) show ?thesis by (simp add: make_node_def choice_def Let_def)
qed

lemma nodes_loop_total:
  assumes "valid_p (map snd pd)" and "\<forall>i \<in> set idxs. unit_sample (pattern_u (draws i))"
    and "areas \<noteq> []"
  shows "\<exists>nodes g'. nodes_loop areas pd draws clock idxs g = Inr (nodes, g')"
  using assms(2)
proof (induction idxs arbitrary: g)
  case Nil
  then show ?case by simp
next
  case (Cons i rest)
  from Cons.prems have u: "unit_sample (pattern_u (draws i))" by simp
  from make_node_ok [OF assms(1) u assms(3)] obtain node
    where n: "make_node areas pd g (draws i) (clock i) = Inr node" by blast
  from Cons.prems have "\<forall>i \<in> set rest. unit_sample (pattern_u (draws i))" by simp
  from Cons.IH [OF this] obtain nodes g'
    where "nodes_loop areas pd draws clock rest (g\<lparr>node_counter := node_counter g + 1\<rparr>) = Inr (nodes, g')"
    by blast
  with n show ?case by simp
qed

lemma nodes_loop_length:
  "nodes_loop areas pd draws clock idxs g = Inr (nodes, g') \<Longrightarrow>
     length nodes = length idxs \<and> g' = g\<lparr>node_counter := node_counter g + length idxs\<rparr>"
proof (induction idxs arbitrary: g nodes)
  case Nil
  then show ?case by simp
next
  case (Cons i rest)
  then show ?case by (fastforce split: sum.splits prod.splits)
qed

lemma nodes_loop_nth:
  "nodes_loop areas pd draws clock idxs g = Inr (nodes, g') \<Longrightarrow> k < length idxs \<Longrightarrow>
     make_node areas pd (g\<lparr>node_counter := node_counter g + k\<rparr>) (draws (idxs ! k)) (clock (idxs ! k))
       = Inr (nodes ! k)"
proof (induction idxs arbitrary: g nodes k)
  case Nil
  then show ?case by simp
next
  case (Cons i rest)
  from Cons.prems(1) obtain node nodes'
    where n: "make_node areas pd g (draws i) (clock i) = Inr node"
      and r: "nodes_loop areas pd draws clock rest (g\<lparr>node_counter := node_counter g + 1\<rparr>) = Inr (nodes', g')"
      and eq: "nodes = node # nodes'"
    by (auto split: sum.splits prod.splits)
  show ?case
  proof (cases k)
    case 0
    with n eq show ?thesis by simp
  next
    case (Suc j)
    with Cons.prems(2) have "j < length rest" by simp
    from Cons.IH [OF r this] Suc eq show ?thesis by simp
  qed
qed


lemma metropolitan_areas_urban: "metropolitan_areas ''urban'' = Some urban_areas"
  by (simp add: metropolitan_areas_def)

lemma metropolitan_areas_unknown:
  "lp \<notin> {''urban'', ''suburban'', ''rural''} \<Longrightarrow> metropolitan_areas lp = None"
  by (simp add: metropolitan_areas_def)

lemma urban_areas_nonempty: "urban_areas \<noteq> []"
  by (simp add: urban_areas_def)

lemma make_node_density:
  "make_node areas pd g dr now = Inr node \<Longrightarrow> density node = population_density (areas ! area_idx dr)"
  by (auto simp: make_node_def choice_def Let_def split: sum.splits if_splits)

lemma catalog_areas_wf:
  "ar \<in> set urban_areas \<union> set suburban_areas \<union> set rural_areas \<Longrightarrow>
     lat_lo ar \<le> center_lat ar \<and> center_lat ar \<le> lat_hi ar
   \<and> lon_lo ar \<le> center_lon ar \<and> center_lon ar \<le> lon_hi ar"
  by (auto simp: urban_areas_def suburban_areas_def rural_areas_def)

lemma metropolitan_areas_cases:
  "(case metropolitan_areas lp of None \<Rightarrow> urban_areas | Some a \<Rightarrow> a)
     \<in> {urban_areas, suburban_areas, rural_areas}"
  by (simp add: metropolitan_areas_def)

lemma uniform_between:
  assumes "lo \<le> hi" and "unit_sample u"
  shows "lo \<le> uniform lo hi u" and "uniform lo hi u \<le> hi"
proof -
  from assms have a: "0 \<le> hi - lo" and u0: "0 \<le> u" and u1: "u \<le> 1"
    by (simp_all add: unit_sample_def)
  from a u0 have "0 \<le> (hi - lo) * u" by (rule mult_nonneg_nonneg)
  then show "lo \<le> uniform lo hi u" by (simp add: uniform_def)
  from u1 a have "(hi - lo) * u \<le> (hi - lo) * 1" by (rule mult_left_mono)
  then show "uniform lo hi u \<le> hi" by (simp add: uniform_def)
qed

lemma blend_between:
  fixes x c lo hi :: real
  assumes "lo \<le> x" "x \<le> hi" "lo \<le> c" "c \<le> hi"
  shows "lo \<le> x * 0.7 + c * 0.3" and "x * 0.7 + c * 0.3 \<le> hi"
  using assms by simp_all

lemma make_node_coordinates:
  assumes "make_node areas pd g dr now = Inr node"
  shows "latitude node =
           (let lat = uniform (lat_lo (areas ! area_idx dr)) (lat_hi (areas ! area_idx dr)) (lat_u dr)
            in if pattern_type node = ''commercial''
               then lat * 0.7 + center_lat (areas ! area_idx dr) * 0.3 else lat)"
    and "longitude node =
           (let lon = uniform (lon_lo (areas ! area_idx dr)) (lon_hi (areas ! area_idx dr)) (lon_u dr)
            in if pattern_type node = ''commercial''
               then lon * 0.7 + center_lon (areas ! area_idx dr) * 0.3 else lon)"
  using assms by (auto simp: make_node_def choice_def Let_def split: sum.splits if_splits)

lemma generate_nodes_loop:
  "generate_nodes g count lp pdo draws clock =
     nodes_loop (case metropolitan_areas lp of None \<Rightarrow> urban_areas | Some a \<Rightarrow> a)
       (case pdo of None \<Rightarrow> default_distribution | Some d \<Rightarrow> d) draws clock [0..<nat count] g"
  by (simp add: generate_nodes_def metropolitan_areas_urban)

text \<open>
  C5. Every node returned by \<^verbatim>\<open>generate_nodes\<close> lies in the bounding box of the area
  chosen for it: its latitude is between the area's latitude bounds and its longitude
  between the longitude bounds, for a commercial node (whose drawn coordinate is blended
  70/30 towards the centre) as for any other. The chosen area is the entry of the selected
  area list at the index drawn by \<^verbatim>\<open>random.choice\<close>; the coordinate samples are in the
  unit interval.
\<close>

theorem generate_nodes_within_bounds:
  assumes run: "generate_nodes g count location_pattern pattern_distribution draws clock = Inr (nodes, g')"
    and k: "k < length nodes"
    and areas: "areas = (case metropolitan_areas location_pattern of None \<Rightarrow> urban_areas | Some a \<Rightarrow> a)"
    and idx: "area_idx (draws k) < length areas"
    and lat: "unit_sample (lat_u (draws k))"
    and lon: "unit_sample (lon_u (draws k))"
  shows "lat_lo (areas ! area_idx (draws k)) \<le> latitude (nodes ! k)
       \<and> latitude (nodes ! k) \<le> lat_hi (areas ! area_idx (draws k))
       \<and> lon_lo (areas ! area_idx (draws k)) \<le> longitude (nodes ! k)
       \<and> longitude (nodes ! k) \<le> lon_hi (areas ! area_idx (draws k))"
proof -
  let ?ar = "areas ! area_idx (draws k)"
  let ?pd = "case pattern_distribution of None \<Rightarrow> default_distribution | Some d \<Rightarrow> d"
  from run areas have loop: "nodes_loop areas ?pd draws clock [0..<nat count] g = Inr (nodes, g')"
    by (simp add: generate_nodes_loop)
  from nodes_loop_length [OF loop] k have k': "k < length [0..<nat count]" by simp
  from nodes_loop_nth [OF loop k'] k'
  have mk: "make_node areas ?pd (g\<lparr>node_counter := node_counter g + k\<rparr>) (draws k) (clock k)
              = Inr (nodes ! k)" by simp
  from idx have "?ar \<in> set areas" by simp
  moreover from areas metropolitan_areas_cases [of location_pattern]
  have "areas \<in> {urban_areas, suburban_areas, rural_areas}" by simp
  ultimately have "?ar \<in> set urban_areas \<union> set suburban_areas \<union> set rural_areas" by auto
  from catalog_areas_wf [OF this]
  have c: "lat_lo ?ar \<le> center_lat ?ar" "center_lat ?ar \<le> lat_hi ?ar"
    "lon_lo ?ar \<le> center_lon ?ar" "center_lon ?ar \<le> lon_hi ?ar" by simp_all
  from c have b: "lat_lo ?ar \<le> lat_hi ?ar" "lon_lo ?ar \<le> lon_hi ?ar" by simp_all
  note ulat = uniform_between [OF b(1) lat]
  note ulon = uniform_between [OF b(2) lon]
  note blat = blend_between [OF ulat c(1,2)]
  note blon = blend_between [OF ulon c(3,4)]
  from make_node_coordinates [OF mk] ulat ulon blat blon show ?thesis
    by (simp add: Let_def)
qed

theorem generate_nodes_within_bounds_witness:
  "\<exists>nodes g'.
     generate_nodes init_generator 2 ''suburban'' None (\<lambda>i. ex_node_draw) (\<lambda>i. 1700000000)
       = Inr (nodes, g')
   \<and> 0 < length nodes
   \<and> area_idx ex_node_draw < length suburban_areas
   \<and> unit_sample (lat_u ex_node_draw) \<and> unit_sample (lon_u ex_node_draw)
   \<and> 30 \<le> latitude (nodes ! 0) \<and> latitude (nodes ! 0) \<le> 30.5
   \<and> -98 \<le> longitude (nodes ! 0) \<and> longitude (nodes ! 0) \<le> -97.5"
proof -
  have vp: "valid_p (map snd default_distribution)"
    by (simp add: valid_p_def default_distribution_def)
  have us: "\<forall>i \<in> set [0..<nat 2]. unit_sample (pattern_u ((\<lambda>i. ex_node_draw) i))"
    by (simp add: unit_sample_def ex_node_draw_def)
  have ne: "suburban_areas \<noteq> []" by (simp add: suburban_areas_def)
  have ar: "suburban_areas = (case metropolitan_areas ''suburban'' of None \<Rightarrow> urban_areas | Some a \<Rightarrow> a)"
    by (simp add: metropolitan_areas_def)
  from nodes_loop_total [OF vp us ne] obtain nodes g'
    where "nodes_loop suburban_areas default_distribution (\<lambda>i. ex_node_draw) (\<lambda>i. 1700000000)
             [0..<nat 2] init_generator = Inr (nodes, g')" by blast
  with ar have run: "generate_nodes init_generator 2 ''suburban'' None (\<lambda>i. ex_node_draw)
      (\<lambda>i. 1700000000) = Inr (nodes, g')"
    by (simp add: generate_nodes_loop)
  from run ar have "length nodes = nat 2"
    using nodes_loop_length [of suburban_areas default_distribution "\<lambda>i. ex_node_draw"
        "\<lambda>i. 1700000000" "[0..<nat 2]" init_generator nodes g']
    by (simp add: generate_nodes_loop)
  then have k: "0 < length nodes" by simp
  have idx: "area_idx ((\<lambda>i. ex_node_draw) 0) < length suburban_areas"
    by (simp add: ex_node_draw_def suburban_areas_def)
  have lat: "unit_sample (lat_u ((\<lambda>i. ex_node_draw) 0))"
    and lon: "unit_sample (lon_u ((\<lambda>i. ex_node_draw) 0))"
    by (simp_all add: unit_sample_def ex_node_draw_def)
  have sel: "suburban_areas ! area_idx ex_node_draw
      = \<lparr>name = ''Austin'', center_lat = 30.2672, center_lon = -97.7431,
        lat_lo = 30.0000, lat_hi = 30.5000, lon_lo = -98.0000, lon_hi = -97.5000,
        population_density = ''medium''\<rparr>"
    by (simp add: ex_node_draw_def suburban_areas_def)
  from generate_nodes_within_bounds [OF run k ar idx lat lon] run k idx lat lon
  show ?thesis by (simp add: sel)
qed

lemma make_node_within_bounds:
  assumes mk: "make_node areas pd g dr now = Inr node"
    and wf: "lat_lo (areas ! area_idx dr) \<le> center_lat (areas ! area_idx dr)"
      "center_lat (areas ! area_idx dr) \<le> lat_hi (areas ! area_idx dr)"
      "lon_lo (areas ! area_idx dr) \<le> center_lon (areas ! area_idx dr)"
      "center_lon (areas ! area_idx dr) \<le> lon_hi (areas ! area_idx dr)"
    and lat: "unit_sample (lat_u dr)" and lon: "unit_sample (lon_u dr)"
  shows "lat_lo (areas ! area_idx dr) \<le> latitude node"
    and "latitude node \<le> lat_hi (areas ! area_idx dr)"
    and "lon_lo (areas ! area_idx dr) \<le> longitude node"
    and "longitude node \<le> lon_hi (areas ! area_idx dr)"
proof -
  let ?ar = "areas ! area_idx dr"
  from wf have b: "lat_lo ?ar \<le> lat_hi ?ar" "lon_lo ?ar \<le> lon_hi ?ar" by simp_all
  note ulat = uniform_between [OF b(1) lat]
  note ulon = uniform_between [OF b(2) lon]
  note blat = blend_between [OF ulat wf(1,2)]
  note blon = blend_between [OF ulon wf(3,4)]
  from make_node_coordinates [OF mk] ulat ulon blat blon
  show "lat_lo ?ar \<le> latitude node" "latitude node \<le> lat_hi ?ar"
    "lon_lo ?ar \<le> longitude node" "longitude node \<le> lon_hi ?ar"
    by (simp_all add: Let_def)
qed

text \<open>
  C10 (as amended). Called with a density class that is none of urban, suburban and rural,
  \<^verbatim>\<open>generate_nodes\<close> returns what the same call with \<^verbatim>\<open>'urban'\<close> returns. With a
  distribution that \<^verbatim>\<open>np.random.choice\<close> accepts (non-negative weights that sum to 1, as
  the default ones) it does not fail: it returns exactly \<open>count\<close> nodes, and each node is
  placed in the urban area drawn for it, with that area's density label and coordinates
  inside that area's bounding box.
\<close>

theorem generate_nodes_unknown_location_pattern:
  assumes unk: "location_pattern \<notin> {''urban'', ''suburban'', ''rural''}"
  shows "generate_nodes g count location_pattern pattern_distribution draws clock
           = generate_nodes g count ''urban'' pattern_distribution draws clock
       \<and> (valid_p (map snd (case pattern_distribution of
                               None \<Rightarrow> default_distribution | Some d \<Rightarrow> d))
          \<and> (\<forall>i < nat count.
                unit_sample (pattern_u (draws i)) \<and> area_idx (draws i) < length urban_areas
              \<and> unit_sample (lat_u (draws i)) \<and> unit_sample (lon_u (draws i)))
          \<longrightarrow>
          (\<exists>nodes g'.
             generate_nodes g count location_pattern pattern_distribution draws clock
               = Inr (nodes, g')
           \<and> length nodes = nat count
           \<and> (\<forall>k < length nodes.
                density (nodes ! k) = population_density (urban_areas ! area_idx (draws k))
              \<and> lat_lo (urban_areas ! area_idx (draws k)) \<le> latitude (nodes ! k)
              \<and> latitude (nodes ! k) \<le> lat_hi (urban_areas ! area_idx (draws k))
              \<and> lon_lo (urban_areas ! area_idx (draws k)) \<le> longitude (nodes ! k)
              \<and> longitude (nodes ! k) \<le> lon_hi (urban_areas ! area_idx (draws k)))))"
proof (intro conjI impI)
  let ?pd = "case pattern_distribution of None \<Rightarrow> default_distribution | Some d \<Rightarrow> d"
  have same: "generate_nodes g count location_pattern pattern_distribution draws clock
      = nodes_loop urban_areas ?pd draws clock [0..<nat count] g"
    using unk by (simp add: generate_nodes_def metropolitan_areas_urban metropolitan_areas_unknown)
  have urban: "generate_nodes g count ''urban'' pattern_distribution draws clock
      = nodes_loop urban_areas ?pd draws clock [0..<nat count] g"
    by (simp add: generate_nodes_def metropolitan_areas_urban)
  from same urban
  show "generate_nodes g count location_pattern pattern_distribution draws clock
           = generate_nodes g count ''urban'' pattern_distribution draws clock" by simp
  assume a: "valid_p (map snd ?pd)
          \<and> (\<forall>i < nat count.
                unit_sample (pattern_u (draws i)) \<and> area_idx (draws i) < length urban_areas
              \<and> unit_sample (lat_u (draws i)) \<and> unit_sample (lon_u (draws i)))"
  then have vp: "valid_p (map snd ?pd)"
    and us: "\<forall>i \<in> set [0..<nat count]. unit_sample (pattern_u (draws i))" by simp_all
  from nodes_loop_total [OF vp us urban_areas_nonempty] obtain nodes g'
    where run: "nodes_loop urban_areas ?pd draws clock [0..<nat count] g = Inr (nodes, g')"
    by blast
  from nodes_loop_length [OF run] have len: "length nodes = nat count" by simp
  have node: "density (nodes ! k) = population_density (urban_areas ! area_idx (draws k))
              \<and> lat_lo (urban_areas ! area_idx (draws k)) \<le> latitude (nodes ! k)
              \<and> latitude (nodes ! k) \<le> lat_hi (urban_areas ! area_idx (draws k))
              \<and> lon_lo (urban_areas ! area_idx (draws k)) \<le> longitude (nodes ! k)
              \<and> longitude (nodes ! k) \<le> lon_hi (urban_areas ! area_idx (draws k))"
    if "k < length nodes" for k
  proof -
    let ?ar = "urban_areas ! area_idx (draws k)"
    from that len have k: "k < length [0..<nat count]" and kc: "k < nat count" by simp_all
    from nodes_loop_nth [OF run k] k
    have mk: "make_node urban_areas ?pd (g\<lparr>node_counter := node_counter g + k\<rparr>) (draws k) (clock k)
            = Inr (nodes ! k)" by simp
    from a kc have idx: "area_idx (draws k) < length urban_areas"
      and lat: "unit_sample (lat_u (draws k))" and lon: "unit_sample (lon_u (draws k))"
      by simp_all
    from idx have "?ar \<in> set urban_areas \<union> set suburban_areas \<union> set rural_areas" by simp
    from catalog_areas_wf [OF this]
    have wf: "lat_lo ?ar \<le> center_lat ?ar" "center_lat ?ar \<le> lat_hi ?ar"
      "lon_lo ?ar \<le> center_lon ?ar" "center_lon ?ar \<le> lon_hi ?ar" by simp_all
    from make_node_density [OF mk] make_node_within_bounds [OF mk wf lat lon]
    show ?thesis by simp
  qed
  from same run len node
  show "\<exists>nodes g'.
             generate_nodes g count location_pattern pattern_distribution draws clock
               = Inr (nodes, g')
           \<and> length nodes = nat count
           \<and> (\<forall>k < length nodes.
                density (nodes ! k) = population_density (urban_areas ! area_idx (draws k))
              \<and> lat_lo (urban_areas ! area_idx (draws k)) \<le> latitude (nodes ! k)
              \<and> latitude (nodes ! k) \<le> lat_hi (urban_areas ! area_idx (draws k))
              \<and> lon_lo (urban_areas ! area_idx (draws k)) \<le> longitude (nodes ! k)
              \<and> longitude (nodes ! k) \<le> lon_hi (urban_areas ! area_idx (draws k)))"
    by auto
qed

theorem generate_nodes_unknown_location_pattern_witness:
  "''moon'' \<notin> {''urban'', ''suburban'', ''rural''}
   \<and> valid_p (map snd default_distribution)
   \<and> unit_sample (pattern_u ex_node_draw) \<and> area_idx ex_node_draw < length urban_areas
   \<and> unit_sample (lat_u ex_node_draw) \<and> unit_sample (lon_u ex_node_draw)
   \<and> (\<exists>nodes g'.
         generate_nodes init_generator 2 ''moon'' None (\<lambda>i. ex_node_draw) (\<lambda>i. 1700000000)
           = Inr (nodes, g')
       \<and> generate_nodes init_generator 2 ''urban'' None (\<lambda>i. ex_node_draw) (\<lambda>i. 1700000000)
           = Inr (nodes, g')
       \<and> length nodes = 2
       \<and> density (nodes ! 1) = ''high''
       \<and> 33.7037 \<le> latitude (nodes ! 1) \<and> latitude (nodes ! 1) \<le> 34.3373
       \<and> -118.6681 \<le> longitude (nodes ! 1) \<and> longitude (nodes ! 1) \<le> -118.1553)"
proof -
  have h1: "''moon'' \<notin> {''urban'', ''suburban'', ''rural''}" by simp
  have h2: "valid_p (map snd default_distribution)"
    by (simp add: valid_p_def default_distribution_def)
  have h3: "unit_sample (pattern_u ex_node_draw)" "area_idx ex_node_draw < length urban_areas"
    "unit_sample (lat_u ex_node_draw)" "unit_sample (lon_u ex_node_draw)"
    by (simp_all add: unit_sample_def ex_node_draw_def urban_areas_def)
  have sel: "urban_areas ! area_idx ex_node_draw
      = \<lparr>name = ''Los Angeles'', center_lat = 34.0522, center_lon = -118.2437,
        lat_lo = 33.7037, lat_hi = 34.3373, lon_lo = -118.6681, lon_hi = -118.1553,
        population_density = ''high''\<rparr>"
    by (simp add: ex_node_draw_def urban_areas_def)
  note inst = generate_nodes_unknown_location_pattern [OF h1, of init_generator 2 None
      "\<lambda>i. ex_node_draw" "\<lambda>i. 1700000000"]
  from inst have eq: "generate_nodes init_generator 2 ''moon'' None (\<lambda>i. ex_node_draw)
      (\<lambda>i. 1700000000)
    = generate_nodes init_generator 2 ''urban'' None (\<lambda>i. ex_node_draw) (\<lambda>i. 1700000000)"
    by (rule conjunct1)
  from inst [THEN conjunct2] h2 h3
  have "\<exists>nodes g'.
             generate_nodes init_generator 2 ''moon'' None (\<lambda>i. ex_node_draw) (\<lambda>i. 1700000000)
               = Inr (nodes, g')
           \<and> length nodes = nat 2
           \<and> (\<forall>k < length nodes.
                density (nodes ! k) = population_density (urban_areas ! area_idx ex_node_draw)
              \<and> lat_lo (urban_areas ! area_idx ex_node_draw) \<le> latitude (nodes ! k)
              \<and> latitude (nodes ! k) \<le> lat_hi (urban_areas ! area_idx ex_node_draw)
              \<and> lon_lo (urban_areas ! area_idx ex_node_draw) \<le> longitude (nodes ! k)
              \<and> longitude (nodes ! k) \<le> lon_hi (urban_areas ! area_idx ex_node_draw))"
    by simp
  then obtain nodes g'
    where r: "generate_nodes init_generator 2 ''moon'' None (\<lambda>i. ex_node_draw) (\<lambda>i. 1700000000)
                = Inr (nodes, g')"
      and l: "length nodes = nat 2"
      and a: "\<forall>k < length nodes.
                density (nodes ! k) = population_density (urban_areas ! area_idx ex_node_draw)
              \<and> lat_lo (urban_areas ! area_idx ex_node_draw) \<le> latitude (nodes ! k)
              \<and> latitude (nodes ! k) \<le> lat_hi (urban_areas ! area_idx ex_node_draw)
              \<and> lon_lo (urban_areas ! area_idx ex_node_draw) \<le> longitude (nodes ! k)
              \<and> longitude (nodes ! k) \<le> lon_hi (urban_areas ! area_idx ex_node_draw)"
    by blast
  from eq r
  have u: "generate_nodes init_generator 2 ''urban'' None (\<lambda>i. ex_node_draw) (\<lambda>i. 1700000000)
             = Inr (nodes, g')" by simp
  from l a [rule_format, of 1]
  have "density (nodes ! 1) = ''high''
       \<and> 33.7037 \<le> latitude (nodes ! 1) \<and> latitude (nodes ! 1) \<le> 34.3373
       \<and> -118.6681 \<le> longitude (nodes ! 1) \<and> longitude (nodes ! 1) \<le> -118.1553"
    by (simp add: sel)
  with r u l have "\<exists>nodes g'.
         generate_nodes init_generator 2 ''moon'' None (\<lambda>i. ex_node_draw) (\<lambda>i. 1700000000)
           = Inr (nodes, g')
       \<and> generate_nodes init_generator 2 ''urban'' None (\<lambda>i. ex_node_draw) (\<lambda>i. 1700000000)
           = Inr (nodes, g')
       \<and> length nodes = 2
       \<and> density (nodes ! 1) = ''high''
       \<and> 33.7037 \<le> latitude (nodes ! 1) \<and> latitude (nodes ! 1) \<le> 34.3373
       \<and> -118.6681 \<le> longitude (nodes ! 1) \<and> longitude (nodes ! 1) \<le> -118.1553"
    by (intro exI [of _ nodes] exI [of _ g']) simp
  with h1 h2 h3 show ?thesis by simp
qed

text \<open>
  C10, the claim as stated fails: with an unknown density class and weights that do not
  sum to 1, \<^verbatim>\<open>np.random.choice\<close> raises ValueError in the first iteration and no node is
  returned.
\<close>

theorem generate_nodes_bad_weights_counterexample:
  "generate_nodes init_generator 1 ''moon'' (Some [(''residential'', 0.5)]) (\<lambda>i. ex_node_draw)
     (\<lambda>i. 1700000000) = Inl ValueError"
  by (simp add: generate_nodes_def metropolitan_areas_def make_node_def np_choice_def valid_p_def)

lemma hours_loop_length:
  "hours_loop z node pattern start ap draws hs g = Inr (points, g') \<Longrightarrow>
     length points = length hs \<and> g' = g\<lparr>data_counter := data_counter g + length hs\<rparr>"
proof (induction hs arbitrary: g points)
  case Nil
  then show ?case by simp
next
  case (Cons h rest)
  then show ?case by (fastforce split: sum.splits prod.splits)
qed

lemma hours_loop_nth:
  "hours_loop z node pattern start ap draws hs g = Inr (points, g') \<Longrightarrow> k < length hs \<Longrightarrow>
     node_hour z (g\<lparr>data_counter := data_counter g + k\<rparr>) node pattern start ap (int (hs ! k))
       (draws (hs ! k)) = Inr (points ! k)"
proof (induction hs arbitrary: g points k)
  case Nil
  then show ?case by simp
next
  case (Cons h rest)
  from Cons.prems(1) obtain point points'
    where n: "node_hour z g node pattern start ap (int h) (draws h) = Inr point"
      and r: "hours_loop z node pattern start ap draws rest (g\<lparr>data_counter := data_counter g + 1\<rparr>)
                = Inr (points', g')"
      and eq: "points = point # points'"
    by (auto split: sum.splits prod.splits)
  show ?case
  proof (cases k)
    case 0
    with n eq show ?thesis by simp
  next
    case (Suc j)
    with Cons.prems(2) have "j < length rest" by simp
    from Cons.IH [OF r this] Suc eq show ?thesis by simp
  qed
qed

lemma hour_converts_iff:
  "hour_converts z start h \<longleftrightarrow> (\<exists>t ts. add_hours start h = Inr t \<and> timestamp_of z t = Inr ts)"
  by (auto simp: hour_converts_def split: sum.splits)

lemma node_hour_ok:
  assumes "hour_converts z start h" and "0 \<le> noise_level pattern"
  shows "\<exists>point. node_hour z g node pattern start ap h dr = Inr point"
  using assms by (auto simp: hour_converts_iff node_hour_def Let_def)

lemma hours_loop_total:
  assumes "\<forall>h \<in> set hs. hour_converts z start (int h)" and "0 \<le> noise_level pattern"
  shows "\<exists>points g'. hours_loop z node pattern start ap draws hs g = Inr (points, g')"
  using assms(1)
proof (induction hs arbitrary: g)
  case Nil
  then show ?case by simp
next
  case (Cons h rest)
  from Cons.prems have "hour_converts z start (int h)" by simp
  from node_hour_ok [OF this assms(2)] obtain point
    where n: "node_hour z g node pattern start ap (int h) (draws h) = Inr point" by blast
  from Cons.prems have "\<forall>h \<in> set rest. hour_converts z start (int h)" by simp
  from Cons.IH [OF this] obtain points g'
    where "hours_loop z node pattern start ap draws rest (g\<lparr>data_counter := data_counter g + 1\<rparr>)
             = Inr (points, g')" by blast
  with n show ?case by simp
qed

lemma py_round_ge:
  assumes "of_int n \<le> x"
  shows "n \<le> py_round x"
proof -
  from assms have "n \<le> \<lfloor>x\<rfloor>" by (simp add: le_floor_iff)
  then show ?thesis by (simp add: py_round_def Let_def)
qed

lemma round_ndigits_floor:
  "1 / 10 \<le> round_ndigits (max (1 / 10) x) 3"
proof -
  have "(1::real) / 10 \<le> max (1 / 10) x" by simp
  then have "of_int 100 \<le> max (1 / 10) x * 10 ^ 3" by simp
  then have "100 \<le> py_round (max (1 / 10) x * 10 ^ 3)" by (rule py_round_ge)
  then have "(100::real) \<le> of_int (py_round (max (1 / 10) x * 10 ^ 3))" by linarith
  then show ?thesis by (simp add: round_ndigits_def)
qed

lemma node_hour_kwh:
  "node_hour z g node pattern start ap h dr = Inr p \<Longrightarrow> 1 / 10 \<le> kwh p"
  using round_ndigits_floor
  by (auto simp: node_hour_def Let_def split: sum.splits if_splits)

lemma hours_loop_kwh:
  assumes "hours_loop z node pattern start ap draws hs g = Inr (points, g')" and "p \<in> set points"
  shows "1 / 10 \<le> kwh p"
proof -
  from assms(2) obtain k where k: "k < length points" and p: "points ! k = p"
    by (auto simp: in_set_conv_nth)
  from hours_loop_length [OF assms(1)] k have "k < length hs" by simp
  from hours_loop_nth [OF assms(1) this] p show ?thesis by (auto dest: node_hour_kwh)
qed

lemma series_loop_kwh:
  "series_loop z start dur ap draws k nodes g = Inr (points, g') \<Longrightarrow> p \<in> set points \<Longrightarrow>
     1 / 10 \<le> kwh p"
proof (induction nodes arbitrary: k g points)
  case Nil
  then show ?case by simp
next
  case (Cons node rest)
  show ?case
  proof (cases "active node")
    case False
    with Cons.prems have "series_loop z start dur ap draws (k + 1) rest g = Inr (points, g')"
      by simp
    from Cons.IH [OF this Cons.prems(2)] show ?thesis .
  next
    case True
    with Cons.prems(1) obtain pattern node_data g1 points'
      where "generate_node_time_series z g node pattern start dur ap (draws k) = Inr (node_data, g1)"
        and r: "series_loop z start dur ap draws (k + 1) rest g1 = Inr (points', g')"
        and eq: "points = node_data @ points'"
      by (auto split: option.splits sum.splits prod.splits)
    then have h: "hours_loop z node pattern start ap (draws k) [0..<nat dur] g = Inr (node_data, g1)"
      by (simp add: generate_node_time_series_def)
    from Cons.prems(2) eq consider "p \<in> set node_data" | "p \<in> set points'" by auto
    then show ?thesis
    proof cases
      case 1
      with h show ?thesis by (rule hours_loop_kwh)
    next
      case 2
      from Cons.IH [OF r 2] show ?thesis .
    qed
  qed
qed

lemma ex_detect_columns:
  "detect_columns ex_table = [(''energy'', ''kwh''), (''timestamp'', ''time''), (''meter_id'', ''id'')]"
  by code_simp

lemma ex_columns: "columns ex_table = [''id'', ''kwh'', ''time'']"
  by (simp add: ex_table_def)

lemma ex_rows:
  "rows ex_table = [[Str ''m1'', Num 4.9996, Num 1700000000], [Str ''m2'', Num 1, Missing],
                    [Missing, Num 0, Str ''bad'']]"
  by (simp add: ex_table_def)

lemma fromtimestamp_utc:
  "fromtimestamp utc ts =
     (if in_years ts \<and> in_years (ts - 86400)
      then Inr \<lparr>ordinal = EPOCH_ORDINAL + ts div 86400, second_of_day = ts mod 86400,
                microsecond = 0, tzinfo = None\<rparr>
      else Inl ValueError)"
  by (simp add: fromtimestamp_def local_def wall_clock_def utc_def Let_def)

lemma safe_extract_timestamp_None:
  "safe_extract_timestamp pd_lib df row column now dr = None \<longleftrightarrow> row_get df row column = Some Missing"
  by (simp add: safe_extract_timestamp_def Let_def split: option.splits cell.splits)

lemma generate_realistic_location_ok:
  "\<exists>loc. generate_realistic_location dr = Inr loc"
  by (simp add: generate_realistic_location_def metropolitan_areas_urban choice_def
      urban_areas_nonempty Let_def)

text \<open>What a completed iteration of the merge loop did.\<close>

lemma merge_row_Inr:
  assumes "merge_row z pd_lib df detected g row dr now = Inr r"
  shows "r = (case safe_extract_numeric pd_lib df row (energy_column df detected) of
                None \<Rightarrow> None
              | Some v \<Rightarrow>
                  (case safe_extract_timestamp pd_lib df row (timestamp_column df detected) now dr of
                     None \<Rightarrow> None
                   | Some ts \<Rightarrow>
                       (case fromtimestamp z ts of
                          Inl e \<Rightarrow> None
                        | Inr t \<Rightarrow>
                            Some \<lparr>data_id = ''kaggle_'' @ fmt_0d 8 (data_counter g),
                                  dp_node_id = ''kaggle_'' @ safe_extract_string pd_lib df row
                                     (case map_of detected ''meter_id'' of
                                        None \<Rightarrow> ''synthetic'' | Some c \<Rightarrow> c) dr,
                                  kwh = round_ndigits (v * uniform 0.8 1.2 (vary_u dr)) 3,
                                  dp_location = ld_location (projr (generate_realistic_location dr)),
                                  timestamp = ts,
                                  hour = dt_hour t,
                                  day_of_week = dt_weekday t,
                                  month = dt_month t,
                                  dp_pattern_type = classify (v * uniform 0.8 1.2 (vary_u dr)),
                                  anomaly = False\<rparr>)))"
    and "safe_extract_numeric pd_lib df row (energy_column df detected) \<noteq> None \<Longrightarrow>
         safe_extract_timestamp pd_lib df row (timestamp_column df detected) now dr = Some ts \<Longrightarrow>
         \<exists>t. fromtimestamp z ts = Inr t"
  using assms generate_realistic_location_ok [of dr]
  by (auto simp: merge_row_def column_at_def energy_column_def timestamp_column_def Let_def
      split: sum.splits option.splits if_splits)

lemma merge_row_kept_iff:
  assumes "merge_row z pd_lib df detected g row dr now = Inr r"
  shows "(\<exists>p. r = Some p) \<longleftrightarrow> row_kept pd_lib df detected row"
proof (cases "safe_extract_numeric pd_lib df row (energy_column df detected)")
  case None
  with merge_row_Inr(1) [OF assms] show ?thesis by (simp add: row_kept_def)
next
  case (Some v)
  show ?thesis
  proof (cases "safe_extract_timestamp pd_lib df row (timestamp_column df detected) now dr")
    case None
    with Some merge_row_Inr(1) [OF assms] show ?thesis
      by (simp add: row_kept_def safe_extract_timestamp_None)
  next
    case (Some ts)
    with \<open>safe_extract_numeric pd_lib df row (energy_column df detected) = Some v\<close>
      merge_row_Inr(2) [OF assms, of ts]
    obtain t where t: "fromtimestamp z ts = Inr t" by auto
    from Some have "row_get df row (timestamp_column df detected) \<noteq> Some Missing"
      using safe_extract_timestamp_None [of pd_lib df row "timestamp_column df detected" now dr]
      by simp
    with Some t \<open>safe_extract_numeric pd_lib df row (energy_column df detected) = Some v\<close>
      merge_row_Inr(1) [OF assms] show ?thesis
      by (simp add: row_kept_def)
  qed
qed

lemma merge_row_fallback:
  assumes "merge_row z pd_lib df detected g row dr now = Inr (Some p)"
    and "row_get df row (timestamp_column df detected) = None
         \<or> (\<exists>s. row_get df row (timestamp_column df detected) = Some (Str s)
                  \<and> to_datetime pd_lib s = None)"
  shows "timestamp p = now - ts_offset dr"
proof -
  from assms(2)
  have "safe_extract_timestamp pd_lib df row (timestamp_column df detected) now dr
          = Some (now - ts_offset dr)"
    by (auto simp: safe_extract_timestamp_def Let_def)
  with merge_row_Inr(1) [OF assms(1)] show ?thesis
    by (auto split: option.splits sum.splits)
qed

lemma merge_loop_length:
  "merge_loop z pd_lib df detected draws clock i rws g = (Inr points, g') \<Longrightarrow>
     length points = length (filter (row_kept pd_lib df detected) rws)"
proof (induction rws arbitrary: i g points)
  case Nil
  then show ?case by simp
next
  case (Cons row rest)
  from Cons.prems obtain r
    where r: "merge_row z pd_lib df detected g row (draws i) (clock i) = Inr r"
    by (auto split: sum.splits)
  show ?case
  proof (cases r)
    case None
    with merge_row_kept_iff [OF r] have nk: "\<not> row_kept pd_lib df detected row" by simp
    from None r Cons.prems
    have "merge_loop z pd_lib df detected draws clock (i + 1) rest g = (Inr points, g')" by simp
    from Cons.IH [OF this] nk show ?thesis by simp
  next
    case (Some p)
    with merge_row_kept_iff [OF r] have k: "row_kept pd_lib df detected row" by simp
    from Some r Cons.prems obtain points'
      where l: "merge_loop z pd_lib df detected draws clock (i + 1) rest
                  (g\<lparr>data_counter := data_counter g + 1\<rparr>) = (Inr points', g')"
        and eq: "points = p # points'"
      by (auto split: sum.splits prod.splits)
    from Cons.IH [OF l] k eq show ?thesis by simp
  qed
qed

lemma merge_loop_nth:
  "merge_loop z pd_lib df detected draws clock i rws g = (Inr points, g') \<Longrightarrow>
   k < length rws \<Longrightarrow> row_kept pd_lib df detected (rws ! k) \<Longrightarrow>
     \<exists>g0. merge_row z pd_lib df detected g0 (rws ! k) (draws (i + k)) (clock (i + k))
            = Inr (Some (points ! length (filter (row_kept pd_lib df detected) (take k rws))))"
proof (induction rws arbitrary: i g points k)
  case Nil
  then show ?case by simp
next
  case (Cons row rest)
  from Cons.prems(1) obtain r
    where r: "merge_row z pd_lib df detected g row (draws i) (clock i) = Inr r"
    by (auto split: sum.splits)
  show ?case
  proof (cases k)
    case 0
    with Cons.prems(3) merge_row_kept_iff [OF r] obtain p where p: "r = Some p" by auto
    with r Cons.prems(1) obtain points' where "points = p # points'"
      by (auto split: sum.splits prod.splits)
    with 0 p r show ?thesis by auto
  next
    case (Suc j)
    with Cons.prems have j: "j < length rest" and kj: "row_kept pd_lib df detected (rest ! j)"
      by simp_all
    show ?thesis
    proof (cases r)
      case None
      with merge_row_kept_iff [OF r] have nk: "\<not> row_kept pd_lib df detected row" by simp
      from None r Cons.prems(1)
      have "merge_loop z pd_lib df detected draws clock (i + 1) rest g = (Inr points, g')" by simp
      from Cons.IH [OF this j kj] nk Suc show ?thesis by simp
    next
      case (Some p)
      with merge_row_kept_iff [OF r] have k: "row_kept pd_lib df detected row" by simp
      from Some r Cons.prems(1) obtain points'
        where l: "merge_loop z pd_lib df detected draws clock (i + 1) rest
                    (g\<lparr>data_counter := data_counter g + 1\<rparr>) = (Inr points', g')"
          and eq: "points = p # points'"
        by (auto split: sum.splits prod.splits)
      from Cons.IH [OF l j kj] k Suc eq show ?thesis by simp
    qed
  qed
qed

lemma merge_loop_member:
  "merge_loop z pd_lib df detected draws clock i rws g = (Inr points, g') \<Longrightarrow> p \<in> set points \<Longrightarrow>
     \<exists>g0 row dr now. merge_row z pd_lib df detected g0 row dr now = Inr (Some p)"
proof (induction rws arbitrary: i g points)
  case Nil
  then show ?case by simp
next
  case (Cons row rest)
  from Cons.prems(1) obtain r
    where r: "merge_row z pd_lib df detected g row (draws i) (clock i) = Inr r"
    by (auto split: sum.splits)
  show ?case
  proof (cases r)
    case None
    with r Cons.prems(1)
    have "merge_loop z pd_lib df detected draws clock (i + 1) rest g = (Inr points, g')" by simp
    from Cons.IH [OF this Cons.prems(2)] show ?thesis .
  next
    case (Some q)
    with r Cons.prems(1) obtain points'
      where l: "merge_loop z pd_lib df detected draws clock (i + 1) rest
                  (g\<lparr>data_counter := data_counter g + 1\<rparr>) = (Inr points', g')"
        and eq: "points = q # points'"
      by (auto split: sum.splits prod.splits)
    from Cons.prems(2) eq consider "p = q" | "p \<in> set points'" by auto
    then show ?thesis
    proof cases
      case 1
      with r Some show ?thesis by blast
    next
      case 2
      from Cons.IH [OF l 2] show ?thesis .
    qed
  qed
qed

lemma merge_member:
  assumes "p \<in> set (fst (merge_with_kaggle_data z pd_lib g path n positions draws clock))"
  shows "\<exists>df detected g0 row dr now. merge_row z pd_lib df detected g0 row dr now = Inr (Some p)"
proof -
  from assms obtain points g'
    where b: "merge_body z pd_lib g path n positions draws clock = (Inr points, g')"
      and p: "p \<in> set points"
    by (auto simp: merge_with_kaggle_data_def split: prod.splits sum.splits)
  from b obtain df rws
    where "merge_loop z pd_lib df (detect_columns df) draws clock 0 rws g = (Inr points, g')"
    by (auto simp: merge_body_def Let_def split: sum.splits)
  from merge_loop_member [OF this p] show ?thesis by blast
qed

lemma py_round_le:
  assumes "x \<le> of_int n"
  shows "py_round x \<le> n"
proof (cases "x = of_int n")
  case True
  then show ?thesis by (simp add: py_round_def Let_def)
next
  case False
  with assms have "x < of_int n" by simp
  then have "\<lfloor>x\<rfloor> < n" by (simp add: floor_less_iff)
  then show ?thesis by (simp add: py_round_def Let_def)
qed

lemma round3_ge:
  assumes "of_int c \<le> x"
  shows "of_int c \<le> round_ndigits x 3"
proof -
  from assms have "of_int (c * 1000) \<le> x * 10 ^ 3" by simp
  then have "c * 1000 \<le> py_round (x * 10 ^ 3)" by (rule py_round_ge)
  then have "of_int (c * 1000) \<le> (of_int (py_round (x * 10 ^ 3)) :: real)"
    by (simp only: of_int_le_iff)
  then show ?thesis by (simp add: round_ndigits_def)
qed

lemma round3_le:
  assumes "x \<le> of_int c"
  shows "round_ndigits x 3 \<le> of_int c"
proof -
  from assms have "x * 10 ^ 3 \<le> of_int (c * 1000)" by simp
  then have "py_round (x * 10 ^ 3) \<le> c * 1000" by (rule py_round_le)
  then have "(of_int (py_round (x * 10 ^ 3)) :: real) \<le> of_int (c * 1000)"
    by (simp only: of_int_le_iff)
  then show ?thesis by (simp add: round_ndigits_def)
qed

lemma classify_round3:
  "(classify x = ''residential'' \<and> round_ndigits x 3 \<le> 5)
   \<or> (classify x = ''commercial'' \<and> 5 \<le> round_ndigits x 3 \<and> round_ndigits x 3 \<le> 20)
   \<or> (classify x = ''industrial'' \<and> 20 \<le> round_ndigits x 3 \<and> round_ndigits x 3 \<le> 50)
   \<or> (classify x = ''datacenter'' \<and> 50 \<le> round_ndigits x 3)"
  using round3_le [of x 5] round3_ge [of 5 x] round3_le [of x 20] round3_ge [of 20 x]
    round3_le [of x 50] round3_ge [of 50 x]
  by (simp add: classify_def)

lemma merge_row_classified:
  assumes "merge_row z pd_lib df detected g row dr now = Inr (Some p)"
  shows "\<exists>x. kwh p = round_ndigits x 3 \<and> dp_pattern_type p = classify x"
  using merge_row_Inr(1) [OF assms] by (auto split: option.splits sum.splits)

text \<open>
  C6 (as amended). The pattern type of a merged point is decided on the varied value before
  it is rounded to three decimals, so it agrees with the emitted \<open>kwh\<close> away from the
  thresholds: \<open>kwh < 5\<close> gives residential, \<open>5 < kwh < 20\<close> commercial,
  \<open>20 < kwh < 50\<close> industrial and \<open>50 < kwh\<close> datacenter, while an emitted value of
  exactly 5, 20 or 50 carries either of the two neighbouring types.
\<close>

theorem merge_pattern_type_thresholds:
  assumes "p \<in> set (fst (merge_with_kaggle_data z pd_lib g path n positions draws clock))"
  shows "(kwh p < 5 \<longrightarrow> dp_pattern_type p = ''residential'')
       \<and> (5 < kwh p \<and> kwh p < 20 \<longrightarrow> dp_pattern_type p = ''commercial'')
       \<and> (20 < kwh p \<and> kwh p < 50 \<longrightarrow> dp_pattern_type p = ''industrial'')
       \<and> (50 < kwh p \<longrightarrow> dp_pattern_type p = ''datacenter'')
       \<and> (kwh p = 5 \<longrightarrow> dp_pattern_type p \<in> {''residential'', ''commercial''})
       \<and> (kwh p = 20 \<longrightarrow> dp_pattern_type p \<in> {''commercial'', ''industrial''})
       \<and> (kwh p = 50 \<longrightarrow> dp_pattern_type p \<in> {''industrial'', ''datacenter''})"
proof -
  from merge_member [OF assms] obtain df detected g0 row dr now
    where "merge_row z pd_lib df detected g0 row dr now = Inr (Some p)" by blast
  from merge_row_classified [OF this] obtain x
    where x: "kwh p = round_ndigits x 3" "dp_pattern_type p = classify x" by blast
  from classify_round3 [of x] x show ?thesis by auto
qed


text \<open>Runs of the merge on a sample of one row of the example table.\<close>

lemma ex_merge_single:
  assumes "k < 3"
    and "merge_row utc ex_pandas ex_table
           [(''energy'', ''kwh''), (''timestamp'', ''time''), (''meter_id'', ''id'')]
           init_generator (rows ex_table ! k) ex_merge_draw 1700000000 = Inr r"
  shows "fst (merge_with_kaggle_data utc ex_pandas init_generator ''ok.csv'' 1 [k]
           (\<lambda>i. ex_merge_draw) (\<lambda>i. 1700000000)) = (case r of None \<Rightarrow> [] | Some p \<Rightarrow> [p])"
proof -
  have rd: "read_csv ex_pandas ''ok.csv'' = Inr ex_table" by (simp add: ex_pandas_def)
  have n: "min 1 (int (length (rows ex_table))) = 1" by (simp add: ex_rows)
  show ?thesis
    using assms(2)
    by (simp add: merge_with_kaggle_data_def merge_body_def rd n sample_def ex_detect_columns
        Let_def split: option.splits)
qed

lemma ex_merge_row_0:
  "\<exists>p. merge_row utc ex_pandas ex_table
          [(''energy'', ''kwh''), (''timestamp'', ''time''), (''meter_id'', ''id'')]
          init_generator (rows ex_table ! 0) ex_merge_draw 1700000000 = Inr (Some p)
       \<and> kwh p = 5 \<and> dp_pattern_type p = ''residential''"
  by (simp add: ex_rows merge_row_def column_at_def safe_extract_numeric_def
      safe_extract_timestamp_def safe_extract_string_def row_get_def ex_columns ex_pandas_def
      ex_merge_draw_def generate_realistic_location_def metropolitan_areas_urban choice_def
      urban_areas_nonempty fromtimestamp_utc in_years_def EPOCH_ORDINAL_def MAXORDINAL_def Let_def
      round_ndigits_def py_round_def py_int_def uniform_def classify_def)

lemma ex_merge_row_1:
  "merge_row utc ex_pandas ex_table
     [(''energy'', ''kwh''), (''timestamp'', ''time''), (''meter_id'', ''id'')]
     init_generator (rows ex_table ! 1) ex_merge_draw 1700000000 = Inr None"
  by (simp add: ex_rows merge_row_def column_at_def safe_extract_numeric_def
      safe_extract_timestamp_def safe_extract_string_def row_get_def ex_columns ex_pandas_def
      ex_merge_draw_def Let_def)

lemma ex_merge_row_2:
  "\<exists>p. merge_row utc ex_pandas ex_table
          [(''energy'', ''kwh''), (''timestamp'', ''time''), (''meter_id'', ''id'')]
          init_generator (rows ex_table ! 2) ex_merge_draw 1700000000 = Inr (Some p)
       \<and> kwh p = 0 \<and> timestamp p = 1699999000"
  by (simp add: ex_rows merge_row_def column_at_def safe_extract_numeric_def
      safe_extract_timestamp_def safe_extract_string_def row_get_def ex_columns ex_pandas_def
      ex_merge_draw_def generate_realistic_location_def metropolitan_areas_urban choice_def
      urban_areas_nonempty fromtimestamp_utc in_years_def EPOCH_ORDINAL_def MAXORDINAL_def Let_def
      round_ndigits_def py_round_def)

theorem merge_pattern_type_thresholds_witness:
  "map dp_pattern_type (fst (merge_with_kaggle_data utc ex_pandas init_generator ''ok.csv'' 1 [2]
       (\<lambda>i. ex_merge_draw) (\<lambda>i. 1700000000))) = [''residential'']"
proof -
  from ex_merge_row_2 obtain p
    where r: "merge_row utc ex_pandas ex_table
          [(''energy'', ''kwh''), (''timestamp'', ''time''), (''meter_id'', ''id'')]
          init_generator (rows ex_table ! 2) ex_merge_draw 1700000000 = Inr (Some p)"
      and k: "kwh p = 0" by blast
  from ex_merge_single [OF _ r]
  have run: "fst (merge_with_kaggle_data utc ex_pandas init_generator ''ok.csv'' 1 [2]
       (\<lambda>i. ex_merge_draw) (\<lambda>i. 1700000000)) = [p]" by simp
  then have "p \<in> set (fst (merge_with_kaggle_data utc ex_pandas init_generator ''ok.csv'' 1 [2]
       (\<lambda>i. ex_merge_draw) (\<lambda>i. 1700000000)))" by simp
  from merge_pattern_type_thresholds [OF this] k have "dp_pattern_type p = ''residential''"
    by simp
  with run show ?thesis by simp
qed

text \<open>
  C6, the claim as stated fails: a source value of 4.9996 with variation factor 1 is
  classified residential and emitted as \<open>kwh = 5.0\<close>, for which the claim demands
  commercial.
\<close>

theorem merge_pattern_type_counterexample:
  "map (\<lambda>p. (kwh p, dp_pattern_type p))
     (fst (merge_with_kaggle_data utc ex_pandas init_generator ''ok.csv'' 1 [0]
        (\<lambda>i. ex_merge_draw) (\<lambda>i. 1700000000))) = [(5, ''residential'')]"
proof -
  from ex_merge_row_0 obtain p
    where r: "merge_row utc ex_pandas ex_table
          [(''energy'', ''kwh''), (''timestamp'', ''time''), (''meter_id'', ''id'')]
          init_generator (rows ex_table ! 0) ex_merge_draw 1700000000 = Inr (Some p)"
      and k: "kwh p = 5" "dp_pattern_type p = ''residential''" by blast
  from ex_merge_single [OF _ r] k show ?thesis by simp
qed

text \<open>
  C8. When the dataset cannot be read (\<^verbatim>\<open>pd.read_csv\<close> raises, for a missing file or a
  malformed table), \<^verbatim>\<open>merge_with_kaggle_data\<close> returns the empty list; the exception is
  caught inside the operation, whose result is a list in every case.
\<close>

theorem merge_unreadable_dataset:
  assumes "read_csv pd_lib kaggle_csv_path = Inl e"
  shows "fst (merge_with_kaggle_data z pd_lib g kaggle_csv_path sample_size positions draws clock) = []"
  using assms by (simp add: merge_with_kaggle_data_def merge_body_def)

theorem merge_unreadable_dataset_witness:
  "read_csv ex_pandas ''missing.csv'' = Inl OSError
   \<and> fst (merge_with_kaggle_data utc ex_pandas init_generator ''missing.csv'' 1000 []
           (\<lambda>i. ex_merge_draw) (\<lambda>i. 1700000000)) = []"
proof -
  have r: "read_csv ex_pandas ''missing.csv'' = Inl OSError" by (simp add: ex_pandas_def)
  from merge_unreadable_dataset [OF r] r show ?thesis by simp
qed


text \<open>
  C2 (as amended). In a merge that completes, the rows of the sample that yield a data
  point are those whose energy value parses and whose timestamp cell is not missing: a
  missing (NaN) timestamp makes \<^verbatim>\<open>_safe_extract_timestamp\<close> return \<^verbatim>\<open>None\<close> and the row is
  skipped, as a row with a failed energy value is. A timestamp string that does not parse
  (or a timestamp column absent from the row) is replaced by the fallback, the clock
  reading minus the drawn offset, and the row is kept.
\<close>

theorem merge_keeps_rows:
  assumes read: "read_csv pd_lib path = Inr df"
    and body: "merge_body z pd_lib g path sample_size positions draws clock = (Inr points, g')"
    and rws: "rws = map (\<lambda>k. rows df ! k) positions"
    and det: "detected = detect_columns df"
  shows "fst (merge_with_kaggle_data z pd_lib g path sample_size positions draws clock) = points
       \<and> length points = length (filter (row_kept pd_lib df detected) rws)
       \<and> (\<forall>k < length rws.
            row_kept pd_lib df detected (rws ! k) \<longrightarrow>
            (row_get df (rws ! k) (timestamp_column df detected) = None
             \<or> (\<exists>s. row_get df (rws ! k) (timestamp_column df detected) = Some (Str s)
                      \<and> to_datetime pd_lib s = None)) \<longrightarrow>
            timestamp (points ! length (filter (row_kept pd_lib df detected) (take k rws)))
              = clock k - ts_offset (draws k))"
proof -
  from read body rws det
  have loop: "merge_loop z pd_lib df detected draws clock 0 rws g = (Inr points, g')"
    by (auto simp: merge_body_def sample_def Let_def split: if_splits)
  have "timestamp (points ! length (filter (row_kept pd_lib df detected) (take k rws)))
          = clock k - ts_offset (draws k)"
    if k: "k < length rws" and kept: "row_kept pd_lib df detected (rws ! k)"
      and fb: "row_get df (rws ! k) (timestamp_column df detected) = None
             \<or> (\<exists>s. row_get df (rws ! k) (timestamp_column df detected) = Some (Str s)
                      \<and> to_datetime pd_lib s = None)" for k
  proof -
    from merge_loop_nth [OF loop k kept] obtain g0
      where "merge_row z pd_lib df detected g0 (rws ! k) (draws k) (clock k)
               = Inr (Some (points ! length (filter (row_kept pd_lib df detected) (take k rws))))"
      by auto
    from merge_row_fallback [OF this fb] show ?thesis .
  qed
  moreover from body
  have "fst (merge_with_kaggle_data z pd_lib g path sample_size positions draws clock) = points"
    by (simp add: merge_with_kaggle_data_def)
  moreover note merge_loop_length [OF loop]
  ultimately show ?thesis by blast
qed

lemma ex_merge_body_single:
  assumes "merge_row utc ex_pandas ex_table
           [(''energy'', ''kwh''), (''timestamp'', ''time''), (''meter_id'', ''id'')]
           init_generator (rows ex_table ! k) ex_merge_draw 1700000000 = Inr r"
  shows "fst (merge_body utc ex_pandas init_generator ''ok.csv'' 1 [k]
           (\<lambda>i. ex_merge_draw) (\<lambda>i. 1700000000)) = Inr (case r of None \<Rightarrow> [] | Some p \<Rightarrow> [p])"
proof -
  have rd: "read_csv ex_pandas ''ok.csv'' = Inr ex_table" by (simp add: ex_pandas_def)
  have n: "min 1 (int (length (rows ex_table))) = 1" by (simp add: ex_rows)
  show ?thesis
    using assms
    by (simp add: merge_body_def rd n sample_def ex_detect_columns Let_def split: option.splits)
qed

theorem merge_keeps_rows_witness:
  "read_csv ex_pandas ''ok.csv'' = Inr ex_table
   \<and> row_kept ex_pandas ex_table (detect_columns ex_table) (rows ex_table ! 2)
   \<and> row_get ex_table (rows ex_table ! 2) (timestamp_column ex_table (detect_columns ex_table))
       = Some (Str ''bad'')
   \<and> to_datetime ex_pandas ''bad'' = None
   \<and> map timestamp (fst (merge_with_kaggle_data utc ex_pandas init_generator ''ok.csv'' 1 [2]
        (\<lambda>i. ex_merge_draw) (\<lambda>i. 1700000000))) = [1700000000 - 1000]"
proof -
  have rd: "read_csv ex_pandas ''ok.csv'' = Inr ex_table" by (simp add: ex_pandas_def)
  have kept: "row_kept ex_pandas ex_table (detect_columns ex_table) (rows ex_table ! 2)"
    by (simp add: row_kept_def ex_detect_columns energy_column_def timestamp_column_def
        safe_extract_numeric_def row_get_def ex_columns ex_rows)
  have cell: "row_get ex_table (rows ex_table ! 2)
      (timestamp_column ex_table (detect_columns ex_table)) = Some (Str ''bad'')"
    by (simp add: ex_detect_columns timestamp_column_def row_get_def ex_columns ex_rows)
  have bad: "to_datetime ex_pandas ''bad'' = None" by (simp add: ex_pandas_def)
  from ex_merge_row_2 obtain p
    where r: "merge_row utc ex_pandas ex_table
          [(''energy'', ''kwh''), (''timestamp'', ''time''), (''meter_id'', ''id'')]
          init_generator (rows ex_table ! 2) ex_merge_draw 1700000000 = Inr (Some p)" by blast
  from ex_merge_body_single [OF r] obtain g'
    where body: "merge_body utc ex_pandas init_generator ''ok.csv'' 1 [2]
           (\<lambda>i. ex_merge_draw) (\<lambda>i. 1700000000) = (Inr [p], g')"
    by (cases "merge_body utc ex_pandas init_generator ''ok.csv'' 1 [2]
           (\<lambda>i. ex_merge_draw) (\<lambda>i. 1700000000)") simp
  from merge_keeps_rows [OF rd body refl refl] kept cell bad
  have "fst (merge_with_kaggle_data utc ex_pandas init_generator ''ok.csv'' 1 [2]
        (\<lambda>i. ex_merge_draw) (\<lambda>i. 1700000000)) = [p]"
    and "timestamp ([p] ! 0) = 1700000000 - ts_offset ex_merge_draw"
    by simp_all
  then have "map timestamp (fst (merge_with_kaggle_data utc ex_pandas init_generator ''ok.csv'' 1 [2]
        (\<lambda>i. ex_merge_draw) (\<lambda>i. 1700000000))) = [1700000000 - 1000]"
    by (simp add: ex_merge_draw_def)
  with rd kept cell bad show ?thesis by simp
qed

text \<open>
  C2, the claim as stated fails: a row whose energy value parses and whose timestamp cell is
  missing is skipped, no fallback timestamp is substituted.
\<close>

theorem merge_missing_timestamp_counterexample:
  "safe_extract_numeric ex_pandas ex_table (rows ex_table ! 1) ''kwh'' = Some 1
   \<and> row_get ex_table (rows ex_table ! 1) ''time'' = Some Missing
   \<and> fst (merge_with_kaggle_data utc ex_pandas init_generator ''ok.csv'' 1 [1]
          (\<lambda>i. ex_merge_draw) (\<lambda>i. 1700000000)) = []"
proof -
  have "safe_extract_numeric ex_pandas ex_table (rows ex_table ! 1) ''kwh'' = Some 1"
    by (simp add: safe_extract_numeric_def row_get_def ex_columns ex_rows)
  moreover have "row_get ex_table (rows ex_table ! 1) ''time'' = Some Missing"
    by (simp add: row_get_def ex_columns ex_rows)
  moreover from ex_merge_single [OF _ ex_merge_row_1]
  have "fst (merge_with_kaggle_data utc ex_pandas init_generator ''ok.csv'' 1 [1]
          (\<lambda>i. ex_merge_draw) (\<lambda>i. 1700000000)) = []" by simp
  ultimately show ?thesis by simp
qed


lemma patterns_cases:
  assumes "patterns s = Some pattern"
  shows "pattern \<in> {residential, commercial, industrial, datacenter, mixed}"
  using assms by (auto simp: patterns_def split: if_splits)

lemma patterns_noise_level:
  assumes "patterns s = Some pattern"
  shows "0 \<le> noise_level pattern"
  using patterns_cases [OF assms]
  by (auto simp: residential_def commercial_def industrial_def datacenter_def mixed_def)

lemma filter_upt_Suc:
  "filter P [0..<Suc n] = (if P 0 then [0] else []) @ map Suc (filter (P \<circ> Suc) [0..<n])"
proof -
  have "[0..<Suc n] = 0 # map Suc [0..<n]"
    by (simp add: upt_conv_Cons map_Suc_upt del: upt_Suc)
  then show ?thesis by (simp add: filter_map del: upt_Suc)
qed

lemma active_positions_Cons:
  "filter (\<lambda>i. active ((node # rest) ! i)) [0..<length (node # rest)] =
     (if active node then [0] else []) @ map Suc (filter (\<lambda>i. active (rest ! i)) [0..<length rest])"
  using filter_upt_Suc [of "\<lambda>i. active ((node # rest) ! i)" "length rest"]
  by (simp add: comp_def del: upt_Suc)

lemma series_loop_total:
  assumes "\<forall>node \<in> set nodes. active node \<longrightarrow> patterns (pattern_type node) \<noteq> None"
    and "\<forall>h < nat dur. hour_converts z start (int h)"
  shows "\<exists>points g'. series_loop z start dur ap draws k nodes g = Inr (points, g')"
  using assms(1)
proof (induction nodes arbitrary: k g)
  case Nil
  then show ?case by simp
next
  case (Cons node rest)
  from Cons.prems
  have rest: "\<forall>node \<in> set rest. active node \<longrightarrow> patterns (pattern_type node) \<noteq> None" by simp
  show ?case
  proof (cases "active node")
    case False
    with Cons.IH [OF rest, of "k + 1" g] show ?thesis by simp
  next
    case True
    with Cons.prems obtain pattern where pat: "patterns (pattern_type node) = Some pattern" by auto
    from assms(2) have "\<forall>h \<in> set [0..<nat dur]. hour_converts z start (int h)" by simp
    from hours_loop_total [OF this patterns_noise_level [OF pat]] obtain node_data g1
      where h: "hours_loop z node pattern start ap (draws k) [0..<nat dur] g = Inr (node_data, g1)"
      by blast
    from Cons.IH [OF rest, of "k + 1" g1] obtain points g'
      where "series_loop z start dur ap draws (k + 1) rest g1 = Inr (points, g')" by blast
    with True pat h show ?thesis by (simp add: generate_node_time_series_def)
  qed
qed

lemma series_loop_structure:
  "series_loop z start dur ap draws k nodes g = Inr (points, g') \<Longrightarrow>
     length points = length (filter (\<lambda>i. active (nodes ! i)) [0..<length nodes]) * nat dur
   \<and> g' = g\<lparr>data_counter := data_counter g
              + length (filter (\<lambda>i. active (nodes ! i)) [0..<length nodes]) * nat dur\<rparr>
   \<and> (\<forall>j h. j < length (filter (\<lambda>i. active (nodes ! i)) [0..<length nodes]) \<longrightarrow> h < nat dur \<longrightarrow>
        (\<exists>pattern.
           patterns (pattern_type
              (nodes ! (filter (\<lambda>i. active (nodes ! i)) [0..<length nodes] ! j))) = Some pattern
         \<and> node_hour z (g\<lparr>data_counter := data_counter g + (j * nat dur + h)\<rparr>)
              (nodes ! (filter (\<lambda>i. active (nodes ! i)) [0..<length nodes] ! j)) pattern start ap
              (int h) (draws (k + filter (\<lambda>i. active (nodes ! i)) [0..<length nodes] ! j) h)
             = Inr (points ! (j * nat dur + h))))"
proof (induction nodes arbitrary: k g points)
  case Nil
  then show ?case by simp
next
  case (Cons node rest)
  let ?idxs = "filter (\<lambda>i. active (rest ! i)) [0..<length rest]"
  show ?case
  proof (cases "active node")
    case False
    with Cons.prems have r: "series_loop z start dur ap draws (k + 1) rest g = Inr (points, g')"
      by simp
    from False have pos: "filter (\<lambda>i. active ((node # rest) ! i)) [0..<length (node # rest)]
        = map Suc ?idxs"
      by (simp only: active_positions_Cons) simp
    from Cons.IH [OF r] show ?thesis
      by (simp only: pos) (simp del: upt_Suc)
  next
    case True
    with Cons.prems obtain pattern node_data g1 points'
      where pat: "patterns (pattern_type node) = Some pattern"
        and gen: "generate_node_time_series z g node pattern start dur ap (draws k) = Inr (node_data, g1)"
        and r: "series_loop z start dur ap draws (k + 1) rest g1 = Inr (points', g')"
        and eq: "points = node_data @ points'"
      by (auto split: option.splits sum.splits prod.splits)
    from gen have hl: "hours_loop z node pattern start ap (draws k) [0..<nat dur] g = Inr (node_data, g1)"
      by (simp add: generate_node_time_series_def)
    from hours_loop_length [OF hl]
    have len: "length node_data = nat dur"
      and g1: "g1 = g\<lparr>data_counter := data_counter g + nat dur\<rparr>" by simp_all
    from True have pos: "filter (\<lambda>i. active ((node # rest) ! i)) [0..<length (node # rest)]
        = 0 # map Suc ?idxs"
      by (simp only: active_positions_Cons) simp
    note IH = Cons.IH [OF r]
    have head: "node_hour z (g\<lparr>data_counter := data_counter g + h\<rparr>) node pattern start ap
                  (int h) (draws k h) = Inr (points ! h)" if "h < nat dur" for h
    proof -
      from that have "h < length [0..<nat dur]" by simp
      from hours_loop_nth [OF hl this] that len eq show ?thesis by (simp add: nth_append)
    qed
    have tail: "\<exists>pattern'.
           patterns (pattern_type (rest ! (?idxs ! j))) = Some pattern'
         \<and> node_hour z (g\<lparr>data_counter := data_counter g + (Suc j * nat dur + h)\<rparr>)
              (rest ! (?idxs ! j)) pattern' start ap (int h) (draws (k + Suc (?idxs ! j)) h)
             = Inr (points ! (Suc j * nat dur + h))"
      if "j < length ?idxs" "h < nat dur" for j h
    proof -
      from IH that obtain pattern'
        where p': "patterns (pattern_type (rest ! (?idxs ! j))) = Some pattern'"
          and nh: "node_hour z (g1\<lparr>data_counter := data_counter g1 + (j * nat dur + h)\<rparr>)
              (rest ! (?idxs ! j)) pattern' start ap (int h) (draws (k + 1 + ?idxs ! j) h)
             = Inr (points' ! (j * nat dur + h))"
        by blast
      have "points ! (Suc j * nat dur + h) = points' ! (j * nat dur + h)"
        using eq len by (simp add: nth_append)
      moreover have "g1\<lparr>data_counter := data_counter g1 + (j * nat dur + h)\<rparr>
          = g\<lparr>data_counter := data_counter g + (Suc j * nat dur + h)\<rparr>"
        using g1 by (simp add: add.assoc)
      ultimately show ?thesis using p' nh by auto
    qed
    have all: "\<exists>pattern'.
           patterns (pattern_type ((node # rest) ! ((0 # map Suc ?idxs) ! j))) = Some pattern'
         \<and> node_hour z (g\<lparr>data_counter := data_counter g + (j * nat dur + h)\<rparr>)
              ((node # rest) ! ((0 # map Suc ?idxs) ! j)) pattern' start ap (int h)
              (draws (k + (0 # map Suc ?idxs) ! j) h)
             = Inr (points ! (j * nat dur + h))"
      if j: "j < length (0 # map Suc ?idxs)" and h: "h < nat dur" for j h
    proof (cases j)
      case 0
      with pat head [OF h] show ?thesis by simp
    next
      case (Suc j')
      with j have "j' < length ?idxs" by simp
      from tail [OF this h] Suc \<open>j' < length ?idxs\<close> show ?thesis by simp
    qed
    from IH have "length points' = length ?idxs * nat dur"
      and "g' = g1\<lparr>data_counter := data_counter g1 + length ?idxs * nat dur\<rparr>" by simp_all
    with eq len g1 have "length points = length (0 # map Suc ?idxs) * nat dur"
      and "g' = g\<lparr>data_counter := data_counter g + length (0 # map Suc ?idxs) * nat dur\<rparr>"
      by (simp_all add: add.assoc)
    with all show ?thesis by (simp only: pos) blast
  qed
qed




lemma add_hours_midnight:
  assumes "second_of_day start = 0" and "0 < ordinal start" and "ordinal start \<le> MAXORDINAL"
    and "0 \<le> h" and "h < 24"
  shows "add_hours start h =
           Inr \<lparr>ordinal = ordinal start, second_of_day = 3600 * h, microsecond = microsecond start,
                tzinfo = tzinfo start\<rparr>"
proof -
  from assms(4,5) have "3600 * h div 86400 = 0" and "3600 * h mod 86400 = 3600 * h"
    by simp_all
  with assms(1,2,3) show ?thesis by (simp add: add_hours_def Let_def)
qed

lemma add_hours_same_day:
  assumes "add_hours start h = Inr t" and "second_of_day start = 0" and "0 \<le> h" and "h < 24"
  shows "ordinal t = ordinal start" and "second_of_day t = 3600 * h"
proof -
  from assms(3,4) have "3600 * h div 86400 = 0" and "3600 * h mod 86400 = 3600 * h"
    by simp_all
  with assms(1,2) show "ordinal t = ordinal start" "second_of_day t = 3600 * h"
    by (auto simp: add_hours_def Let_def split: if_splits)
qed

lemma node_hour_fields:
  assumes "node_hour z g node pattern start ap h dr = Inr p" and "add_hours start h = Inr t"
  shows "kwh p = round_ndigits (max 0.1 (raw_kwh node pattern t ap dr)) 3"
    and "anomaly p = (anomaly_r dr < ap)"
    and "hour p = dt_hour t" and "day_of_week p = dt_weekday t" and "month p = dt_month t"
    and "\<exists>ts. timestamp_of z t = Inr ts \<and> timestamp p = py_int ts"
    and "dp_node_id p = node_id node" and "dp_pattern_type p = pattern_type node"
    and "dp_location p = location node"
    and "data_id p = ''data_'' @ fmt_0d 8 (data_counter g)"
  using assms by (auto simp: node_hour_def Let_def split: if_splits sum.splits)

lemma residential_peak_hours:
  "h \<in> set (peak_hours residential) \<longleftrightarrow> 18 \<le> h \<and> h \<le> 21"
  by (auto simp: residential_def)

lemma active_positions_single: "active node \<Longrightarrow> filter (\<lambda>i. active ([node] ! i)) [0..<length [node]] = [0]"
  by simp

lemma in_years_iff:
  "in_years w \<longleftrightarrow> - 62135596800 \<le> w \<and> w < 253402300800"
proof -
  have d: "w = 86400 * (w div 86400) + w mod 86400" by simp
  have r: "0 \<le> w mod 86400" "w mod 86400 < 86400" by simp_all
  show ?thesis
    unfolding in_years_def EPOCH_ORDINAL_def MAXORDINAL_def
    using d r by linarith
qed

lemma mktime_quiet:
  assumes "z t = c" and "z (t - c) = c" and "z (t - c - 86400) = c"
    and "in_years (t + c)" and "in_years t" and "in_years (t - 86400)"
  shows "mktime z t = Inr (t - c)"
  using assms by (simp add: mktime_def local_def wall_clock_def Let_def)


lemma timestamp_of_quiet:
  assumes "tzinfo t = None"
    and "z (wall_seconds t) = c" and "z (wall_seconds t - c) = c"
    and "z (wall_seconds t - c - 86400) = c"
    and "in_years (wall_seconds t + c)" and "in_years (wall_seconds t)"
    and "in_years (wall_seconds t - 86400)"
  shows "timestamp_of z t = Inr (of_int (wall_seconds t - c) + of_int (microsecond t) / 10 ^ 6)"
  using assms(1) mktime_quiet [OF assms(2-7)] by (simp add: timestamp_of_def)

text \<open>
  C3 (as amended). One active residential node, 24 hours from a midnight start each of
  which converts to a timestamp, anomaly probability 0: \<^verbatim>\<open>generate_time_series\<close> returns
  exactly 24 points, none flagged as an anomaly (the value of \<^verbatim>\<open>random.random()\<close> is never
  negative), and the point of hour \<open>h\<close> has
  \<open>kwh = round(max(0.1, base * weekend * seasonal * multiplier * (1 + noise)), 3)\<close> with
  \<open>base\<close> the peak load for hours 18 to 21 and the baseline load otherwise, \<open>weekend\<close>
  the weekend multiplier on Saturday and Sunday, and
  \<open>seasonal = 1 + seasonal_variation * sin((month - 2) * pi / 6)\<close>.
\<close>

theorem residential_day_series:
  assumes act: "active node" and res: "pattern_type node = ''residential''"
    and midnight: "second_of_day start = 0"
    and conv: "\<forall>h < 24. hour_converts z start (int h)"
    and rnd: "\<forall>h < 24. 0 \<le> anomaly_r (draws 0 h)"
  shows "\<exists>points g'.
           generate_time_series z g [node] start 24 0 draws = Inr (points, g')
         \<and> length points = 24
         \<and> (\<forall>h < 24.
              anomaly (points ! h) = False
            \<and> kwh (points ! h) =
                round_ndigits
                  (max 0.1
                     ((if 18 \<le> h \<and> h \<le> 21 then peak_kwh residential else baseline_kwh residential)
                      * (if 5 \<le> dt_weekday start then weekend_multiplier residential else 1)
                      * (1 + seasonal_variation residential
                               * sin (of_int (dt_month start - 2) * pi / 6))
                      * multiplier node
                      * (1 + noise (draws 0 h)))) 3)"
proof -
  have pat: "patterns (pattern_type node) = Some residential"
    by (simp add: res patterns_def)
  have known: "\<forall>n \<in> set [node]. active n \<longrightarrow> patterns (pattern_type n) \<noteq> None"
    by (simp add: pat)
  from conv have window: "\<forall>h < nat 24. hour_converts z start (int h)" by simp
  from series_loop_total [OF known window, of 0 draws 0 g] obtain points g'
    where loop: "series_loop z start 24 0 draws 0 [node] g = Inr (points, g')" by blast
  note str = series_loop_structure [OF loop, unfolded active_positions_single [OF act]]
  from str have len: "length points = 24" by simp
  have point: "anomaly (points ! h) = False
            \<and> kwh (points ! h) =
                round_ndigits
                  (max 0.1
                     ((if 18 \<le> h \<and> h \<le> 21 then peak_kwh residential else baseline_kwh residential)
                      * (if 5 \<le> dt_weekday start then weekend_multiplier residential else 1)
                      * (1 + seasonal_variation residential
                               * sin (of_int (dt_month start - 2) * pi / 6))
                      * multiplier node
                      * (1 + noise (draws 0 h)))) 3"
    if h: "h < 24" for h
  proof -
    from str h pat
    have nh: "node_hour z (g\<lparr>data_counter := data_counter g + h\<rparr>) node residential start 0
                (int h) (draws 0 h) = Inr (points ! h)"
      by auto
    from conv h obtain t where t: "add_hours start (int h) = Inr t"
      by (auto simp: hour_converts_iff)
    from h have "int h < 24" by simp
    from add_hours_same_day [OF t midnight _ this]
    have day: "ordinal t = ordinal start" "second_of_day t = 3600 * int h" by simp_all
    from rnd h have r: "\<not> anomaly_r (draws 0 h) < 0" by auto
    note f = node_hour_fields(1,2) [OF nh t]
    from f(2) r have "anomaly (points ! h) = False" by simp
    moreover from r have "kwh (points ! h) =
                round_ndigits
                  (max 0.1
                     ((if 18 \<le> h \<and> h \<le> 21 then peak_kwh residential else baseline_kwh residential)
                      * (if 5 \<le> dt_weekday start then weekend_multiplier residential else 1)
                      * (1 + seasonal_variation residential
                               * sin (of_int (dt_month start - 2) * pi / 6))
                      * multiplier node
                      * (1 + noise (draws 0 h)))) 3"
      unfolding f(1) raw_kwh_def
      by (simp add: Let_def dt_hour_def dt_weekday_def dt_month_def residential_peak_hours day)
    ultimately show ?thesis by simp
  qed
  from loop len point show ?thesis
    by (auto simp: generate_time_series_def)
qed

lemma ex_start_fields:
  "ordinal ex_start = 738926" "second_of_day ex_start = 0" "microsecond ex_start = 0"
  "tzinfo ex_start = None" "dt_weekday ex_start = 5" "dt_month ex_start = 2"
  by (simp_all add: ex_start_def mk_datetime_def ymd2ord_def days_before_year_def
      DAYS_BEFORE_MONTH_def is_leap_def dt_weekday_def dt_month_def ord2ymd_def Let_def)

lemma ex_start_hours:
  assumes "h < 24"
  shows "add_hours ex_start (int h) =
           Inr \<lparr>ordinal = 738926, second_of_day = 3600 * int h, microsecond = 0, tzinfo = None\<rparr>"
  using assms add_hours_midnight [of ex_start "int h"]
  by (simp add: ex_start_fields MAXORDINAL_def)

lemma ex_start_wall:
  "wall_seconds \<lparr>ordinal = 738926, second_of_day = 3600 * int h, microsecond = 0, tzinfo = None\<rparr>
     = 1707523200 + 3600 * int h"
  by (simp add: wall_seconds_def EPOCH_ORDINAL_def)

lemma ex_start_timestamps_utc:
  assumes "h < 24"
  shows "timestamp_of utc
           \<lparr>ordinal = 738926, second_of_day = 3600 * int h, microsecond = 0, tzinfo = None\<rparr>
         = Inr (of_int (1707523200 + 3600 * int h))"
proof -
  let ?t = "\<lparr>ordinal = 738926, second_of_day = 3600 * int h, microsecond = 0, tzinfo = None\<rparr>"
  from assms have y: "in_years (wall_seconds ?t + 0)" "in_years (wall_seconds ?t)"
    "in_years (wall_seconds ?t - 86400)"
    by (simp_all add: ex_start_wall in_years_iff)
  have "timestamp_of utc ?t
      = Inr (of_int (wall_seconds ?t - 0) + of_int (microsecond ?t) / 10 ^ 6)"
    by (rule timestamp_of_quiet [OF _ _ _ _ y]) (simp_all add: utc_def)
  then show ?thesis by (simp add: ex_start_wall)
qed

lemma ex_start_converts_utc: "\<forall>h < 24. hour_converts utc ex_start (int h)"
  by (simp add: hour_converts_iff ex_start_hours ex_start_timestamps_utc)

theorem residential_day_series_witness:
  "active ex_node \<and> pattern_type ex_node = ''residential''
   \<and> second_of_day ex_start = 0
   \<and> hour_converts utc ex_start 0 \<and> hour_converts utc ex_start 23
   \<and> 0 \<le> anomaly_r ex_hour_draw
   \<and> (\<exists>points g'.
         generate_time_series utc init_generator [ex_node] ex_start 24 0 (\<lambda>k h. ex_hour_draw)
           = Inr (points, g')
       \<and> length points = 24
       \<and> kwh (points ! 0) = 0.6 \<and> kwh (points ! 18) = 4.2 \<and> anomaly (points ! 18) = False)"
proof -
  have a: "active ex_node" and r: "pattern_type ex_node = ''residential''"
    by (simp_all add: ex_node_def)
  have m: "second_of_day ex_start = 0" by (simp add: ex_start_fields)
  have n: "\<forall>h < 24. 0 \<le> anomaly_r ((\<lambda>k h. ex_hour_draw) 0 h)"
    by (simp add: ex_hour_draw_def)
  from residential_day_series [OF a r m ex_start_converts_utc n, of init_generator] obtain points g'
    where run: "generate_time_series utc init_generator [ex_node] ex_start 24 0 (\<lambda>k h. ex_hour_draw)
                  = Inr (points, g')"
      and len: "length points = 24"
      and pts: "\<forall>h < 24.
              anomaly (points ! h) = False
            \<and> kwh (points ! h) =
                round_ndigits
                  (max 0.1
                     ((if 18 \<le> h \<and> h \<le> 21 then peak_kwh residential else baseline_kwh residential)
                      * (if 5 \<le> dt_weekday ex_start then weekend_multiplier residential else 1)
                      * (1 + seasonal_variation residential
                               * sin (of_int (dt_month ex_start - 2) * pi / 6))
                      * multiplier ex_node
                      * (1 + noise ex_hour_draw))) 3"
    by blast
  from pts have "kwh (points ! 0) = 0.6"
    by (simp add: ex_start_fields residential_def ex_node_def ex_hour_draw_def round_ndigits_def
        py_round_def)
  moreover from pts have "kwh (points ! 18) = 4.2" "anomaly (points ! 18) = False"
    by (simp_all add: ex_start_fields residential_def ex_node_def ex_hour_draw_def
        round_ndigits_def py_round_def)
  ultimately have "\<exists>points g'.
         generate_time_series utc init_generator [ex_node] ex_start 24 0 (\<lambda>k h. ex_hour_draw)
           = Inr (points, g')
       \<and> length points = 24
       \<and> kwh (points ! 0) = 0.6 \<and> kwh (points ! 18) = 4.2 \<and> anomaly (points ! 18) = False"
    using run len by blast
  moreover from ex_start_converts_utc [rule_format, of 0] ex_start_converts_utc [rule_format, of 23]
  have "hour_converts utc ex_start 0" "hour_converts utc ex_start 23" by simp_all
  ultimately show ?thesis using a r m by (simp add: ex_hour_draw_def)
qed

text \<open>
  C3, the claim as stated fails: for a midnight start on 1 January of year 1 the call
  \<^verbatim>\<open>current_time.timestamp()\<close> raises ValueError (its probe one day earlier leaves the
  years of \<^verbatim>\<open>datetime\<close>), in every zone and here in UTC, and no point is returned.
\<close>

theorem residential_day_first_day_counterexample:
  "generate_time_series utc init_generator [ex_node] ex_first_day 24 0 (\<lambda>k h. ex_hour_draw)
     = Inl ValueError"
proof -
  have f: "ordinal ex_first_day = 1" "second_of_day ex_first_day = 0"
    "microsecond ex_first_day = 0" "tzinfo ex_first_day = None"
    by (simp_all add: ex_first_day_def mk_datetime_def ymd2ord_def days_before_year_def
        DAYS_BEFORE_MONTH_def is_leap_def)
  have a: "add_hours ex_first_day 0
      = Inr \<lparr>ordinal = 1, second_of_day = 0, microsecond = 0, tzinfo = None\<rparr>"
    by (simp add: add_hours_def f MAXORDINAL_def)
  have t: "timestamp_of utc \<lparr>ordinal = 1, second_of_day = 0, microsecond = 0, tzinfo = None\<rparr>
      = Inl ValueError"
    by (simp add: timestamp_of_def wall_seconds_def mktime_def local_def wall_clock_def utc_def
        in_years_iff EPOCH_ORDINAL_def Let_def)
  have n: "node_hour utc init_generator ex_node residential ex_first_day 0 0 ex_hour_draw
      = Inl ValueError"
    by (simp add: node_hour_def a t residential_def)
  have u: "[0..<24] = 0 # [1..<24]" by (simp add: upt_conv_Cons)
  have p: "patterns (pattern_type ex_node) = Some residential"
    by (simp add: ex_node_def patterns_def)
  have act: "active ex_node" by (simp add: ex_node_def)
  show ?thesis
    by (simp add: generate_time_series_def act p generate_node_time_series_def u n)
qed

lemma ex_series_run:
  "\<exists>points g'.
     generate_time_series utc init_generator [ex_node] ex_start 24 0 (\<lambda>k h. ex_hour_draw)
       = Inr (points, g') \<and> length points = 24"
proof -
  have pat: "patterns (pattern_type ex_node) = Some residential"
    by (simp add: ex_node_def patterns_def)
  have known: "\<forall>n \<in> set [ex_node]. active n \<longrightarrow> patterns (pattern_type n) \<noteq> None"
    by (simp add: pat)
  from ex_start_converts_utc have window: "\<forall>h < nat 24. hour_converts utc ex_start (int h)"
    by simp
  from series_loop_total [OF known window, of 0 "\<lambda>k h. ex_hour_draw" 0 init_generator]
  obtain points g'
    where loop: "series_loop utc ex_start 24 0 (\<lambda>k h. ex_hour_draw) 0 [ex_node] init_generator
                   = Inr (points, g')" by blast
  have act: "active ex_node" by (simp add: ex_node_def)
  from series_loop_structure [OF loop, unfolded active_positions_single [OF act]]
  have "length points = 24" by simp
  with loop show ?thesis by (simp add: generate_time_series_def)
qed

lemma round_ndigits_ge_tenth:
  assumes "0.1 \<le> x"
  shows "0.1 \<le> round_ndigits x 3"
proof -
  from assms have "max (1 / 10) x = x" by simp
  with round_ndigits_floor [of x] show ?thesis by simp
qed

lemma merge_row_kwh:
  assumes "merge_row z pd_lib df detected g row dr now = Inr (Some p)"
    and "safe_extract_numeric pd_lib df row (energy_column df detected) = Some v"
  shows "kwh p = round_ndigits (v * uniform 0.8 1.2 (vary_u dr)) 3"
  using merge_row_Inr(1) [OF assms(1)] assms(2) by (auto split: option.splits sum.splits)

text \<open>
  C1 (as amended). Every data point emitted by \<^verbatim>\<open>generate_time_series\<close> has
  \<open>kwh \<ge> 0.1\<close>: the value is floored at 0.1 before it is rounded to three decimals.
  \<^verbatim>\<open>merge_with_kaggle_data\<close> applies no floor: the point of a kept row has
  \<open>kwh = round(v * f, 3)\<close> for the row's energy value \<open>v\<close> and the drawn variation factor
  \<open>f\<close>, which is at least 0.1 whenever \<open>v * f\<close> is.
\<close>

theorem kwh_floor:
  "(generate_time_series z g nodes start_date duration_hours anomaly_probability draws
      = Inr (points, g')
    \<longrightarrow> (\<forall>p \<in> set points. 0.1 \<le> kwh p))
   \<and> (read_csv pd_lib path = Inr df
      \<and> merge_body z pd_lib g2 path sample_size positions merge_draws clock = (Inr merged, g2')
      \<longrightarrow>
      (\<forall>k < length positions. \<forall>v.
         safe_extract_numeric pd_lib df (rows df ! (positions ! k))
           (energy_column df (detect_columns df)) = Some v
       \<and> row_get df (rows df ! (positions ! k)) (timestamp_column df (detect_columns df))
           \<noteq> Some Missing
       \<longrightarrow>
         kwh (merged ! kept_before pd_lib df (detect_columns df)
                          (map (\<lambda>i. rows df ! i) positions) k)
           = round_ndigits (v * uniform 0.8 1.2 (vary_u (merge_draws k))) 3
       \<and> (0.1 \<le> v * uniform 0.8 1.2 (vary_u (merge_draws k))
            \<longrightarrow> 0.1 \<le> kwh (merged ! kept_before pd_lib df (detect_columns df)
                                        (map (\<lambda>i. rows df ! i) positions) k))))"
proof (intro conjI impI ballI allI)
  fix p
  assume "generate_time_series z g nodes start_date duration_hours anomaly_probability draws
      = Inr (points, g')" and "p \<in> set points"
  with series_loop_kwh [of z start_date duration_hours anomaly_probability draws 0 nodes g points g' p]
  show "0.1 \<le> kwh p" by (simp add: generate_time_series_def)
next
  fix k v
  let ?det = "detect_columns df"
  let ?rws = "map (\<lambda>i. rows df ! i) positions"
  let ?j = "kept_before pd_lib df ?det ?rws k"
  assume a: "read_csv pd_lib path = Inr df
      \<and> merge_body z pd_lib g2 path sample_size positions merge_draws clock = (Inr merged, g2')"
    and k: "k < length positions"
    and r: "safe_extract_numeric pd_lib df (rows df ! (positions ! k)) (energy_column df ?det) = Some v
       \<and> row_get df (rows df ! (positions ! k)) (timestamp_column df ?det) \<noteq> Some Missing"
  from a have loop: "merge_loop z pd_lib df ?det merge_draws clock 0 ?rws g2 = (Inr merged, g2')"
    by (auto simp: merge_body_def sample_def Let_def split: if_splits)
  from k have k': "k < length ?rws" and row: "?rws ! k = rows df ! (positions ! k)" by simp_all
  from r row have kept: "row_kept pd_lib df ?det (?rws ! k)" by (simp add: row_kept_def)
  from merge_loop_nth [OF loop k' kept] obtain g0
    where mr: "merge_row z pd_lib df ?det g0 (?rws ! k) (merge_draws k) (clock k)
                 = Inr (Some (merged ! ?j))"
    by (auto simp: kept_before_def)
  from r row have "safe_extract_numeric pd_lib df (?rws ! k) (energy_column df ?det) = Some v"
    by simp
  from merge_row_kwh [OF mr this]
  have eq: "kwh (merged ! ?j) = round_ndigits (v * uniform 0.8 1.2 (vary_u (merge_draws k))) 3" .
  then show "kwh (merged ! ?j) = round_ndigits (v * uniform 0.8 1.2 (vary_u (merge_draws k))) 3" .
  assume "0.1 \<le> v * uniform 0.8 1.2 (vary_u (merge_draws k))"
  from round_ndigits_ge_tenth [OF this] eq show "0.1 \<le> kwh (merged ! ?j)" by simp
qed

theorem kwh_floor_witness:
  "(\<exists>points g'.
      generate_time_series utc init_generator [ex_node] ex_start 24 0 (\<lambda>k h. ex_hour_draw)
        = Inr (points, g')
    \<and> points ! 0 \<in> set points \<and> 0.1 \<le> kwh (points ! 0))
   \<and> (\<exists>merged g2'.
        merge_body utc ex_pandas init_generator ''ok.csv'' 1 [0] (\<lambda>i. ex_merge_draw)
          (\<lambda>i. 1700000000) = (Inr merged, g2')
      \<and> read_csv ex_pandas ''ok.csv'' = Inr ex_table
      \<and> safe_extract_numeric ex_pandas ex_table (rows ex_table ! 0)
           (energy_column ex_table (detect_columns ex_table)) = Some 4.9996
      \<and> kwh (merged ! 0) = 5 \<and> 0.1 \<le> kwh (merged ! 0))"
proof -
  from ex_series_run obtain points g'
    where run: "generate_time_series utc init_generator [ex_node] ex_start 24 0
                  (\<lambda>k h. ex_hour_draw) = Inr (points, g')"
      and len: "length points = 24" by blast
  from len have mem: "points ! 0 \<in> set points" by simp
  have rd: "read_csv ex_pandas ''ok.csv'' = Inr ex_table" by (simp add: ex_pandas_def)
  from ex_merge_row_0 obtain p
    where r: "merge_row utc ex_pandas ex_table
          [(''energy'', ''kwh''), (''timestamp'', ''time''), (''meter_id'', ''id'')]
          init_generator (rows ex_table ! 0) ex_merge_draw 1700000000 = Inr (Some p)" by blast
  from ex_merge_body_single [OF r] obtain g2'
    where body: "merge_body utc ex_pandas init_generator ''ok.csv'' 1 [0]
           (\<lambda>i. ex_merge_draw) (\<lambda>i. 1700000000) = (Inr [p], g2')"
    by (cases "merge_body utc ex_pandas init_generator ''ok.csv'' 1 [0]
           (\<lambda>i. ex_merge_draw) (\<lambda>i. 1700000000)") simp
  have en: "safe_extract_numeric ex_pandas ex_table (rows ex_table ! 0)
           (energy_column ex_table (detect_columns ex_table)) = Some 4.9996"
    by (simp add: ex_detect_columns energy_column_def safe_extract_numeric_def row_get_def
        ex_columns ex_rows)
  have tc: "row_get ex_table (rows ex_table ! 0) (timestamp_column ex_table (detect_columns ex_table))
      \<noteq> Some Missing"
    by (simp add: ex_detect_columns timestamp_column_def row_get_def ex_columns ex_rows)
  have f: "uniform (4 / 5) (6 / 5) (vary_u ex_merge_draw) = 1"
    by (simp add: uniform_def ex_merge_draw_def)
  have kb: "kept_before ex_pandas ex_table (detect_columns ex_table) [rows ex_table ! 0] 0 = 0"
    by (simp add: kept_before_def)
  note inst = kwh_floor [of utc init_generator "[ex_node]" ex_start 24 0 "\<lambda>k h. ex_hour_draw"
      points g' ex_pandas "''ok.csv''" ex_table init_generator 1 "[0]" "\<lambda>i. ex_merge_draw"
      "\<lambda>i. 1700000000" "[p]" g2']
  from inst run mem have s: "0.1 \<le> kwh (points ! 0)" by blast
  from inst [THEN conjunct2, rule_format, of 0 "4.9996"] rd body en tc
  have "kwh ([p] ! 0) = round_ndigits (4.9996 * uniform 0.8 1.2 (vary_u ex_merge_draw)) 3"
    and "0.1 \<le> 4.9996 * uniform 0.8 1.2 (vary_u ex_merge_draw) \<longrightarrow> 0.1 \<le> kwh ([p] ! 0)"
    by (auto simp: kb)
  then have m: "kwh ([p] ! 0) = 5" "0.1 \<le> kwh ([p] ! 0)"
    by (simp_all add: f round_ndigits_def py_round_def)
  from run mem s have "\<exists>points g'.
      generate_time_series utc init_generator [ex_node] ex_start 24 0 (\<lambda>k h. ex_hour_draw)
        = Inr (points, g')
    \<and> points ! 0 \<in> set points \<and> 0.1 \<le> kwh (points ! 0)" by blast
  moreover from body rd en m have "\<exists>merged g2'.
        merge_body utc ex_pandas init_generator ''ok.csv'' 1 [0] (\<lambda>i. ex_merge_draw)
          (\<lambda>i. 1700000000) = (Inr merged, g2')
      \<and> read_csv ex_pandas ''ok.csv'' = Inr ex_table
      \<and> safe_extract_numeric ex_pandas ex_table (rows ex_table ! 0)
           (energy_column ex_table (detect_columns ex_table)) = Some 4.9996
      \<and> kwh (merged ! 0) = 5 \<and> 0.1 \<le> kwh (merged ! 0)"
    by (intro exI [of _ "[p]"] exI [of _ g2']) simp
  ultimately show ?thesis by blast
qed

text \<open>
  C1, the claim as stated fails on the merged path: a row whose energy value is 0 is
  emitted with \<open>kwh = 0\<close>.
\<close>

theorem merge_kwh_floor_counterexample:
  "map kwh (fst (merge_with_kaggle_data utc ex_pandas init_generator ''ok.csv'' 1 [2]
       (\<lambda>i. ex_merge_draw) (\<lambda>i. 1700000000))) = [0]"
proof -
  from ex_merge_row_2 obtain p
    where r: "merge_row utc ex_pandas ex_table
          [(''energy'', ''kwh''), (''timestamp'', ''time''), (''meter_id'', ''id'')]
          init_generator (rows ex_table ! 2) ex_merge_draw 1700000000 = Inr (Some p)"
      and k: "kwh p = 0" by blast
  from ex_merge_single [OF _ r] k show ?thesis by simp
qed

lemma make_node_clock:
  assumes "make_node areas pd g dr now = Inr node"
  shows "make_node areas pd g dr now' = Inr (node\<lparr>registered_at := now' - reg_offset dr\<rparr>)"
  using assms by (auto simp: make_node_def Let_def split: sum.splits)

lemma make_node_registered_at:
  assumes "make_node areas pd g dr now = Inr node"
  shows "registered_at node = now - reg_offset dr"
  using assms by (auto simp: make_node_def Let_def split: sum.splits)

lemma nodes_loop_clock:
  "nodes_loop areas pd draws clock idxs g = Inr (nodes, g1) \<Longrightarrow>
     nodes_loop areas pd draws clock' idxs g =
       Inr (map (\<lambda>(i, n). n\<lparr>registered_at := clock' i - reg_offset (draws i)\<rparr>) (zip idxs nodes), g1)"
proof (induction idxs arbitrary: g nodes)
  case Nil
  then show ?case by simp
next
  case (Cons i rest)
  from Cons.prems obtain node nodes'
    where n: "make_node areas pd g (draws i) (clock i) = Inr node"
      and r: "nodes_loop areas pd draws clock rest (g\<lparr>node_counter := node_counter g + 1\<rparr>)
                = Inr (nodes', g1)"
      and eq: "nodes = node # nodes'"
    by (auto split: sum.splits prod.splits)
  from make_node_clock [OF n, of "clock' i"] Cons.IH [OF r] eq show ?case by simp
qed

lemma raw_kwh_registered_at:
  "raw_kwh (n\<lparr>registered_at := r\<rparr>) pattern t ap dr = raw_kwh n pattern t ap dr"
  by (simp add: raw_kwh_def)

lemma node_hour_registered_at:
  "node_hour z g (n\<lparr>registered_at := r\<rparr>) pattern start ap h dr = node_hour z g n pattern start ap h dr"
  by (simp add: node_hour_def raw_kwh_registered_at Let_def split: sum.splits)

lemma hours_loop_registered_at:
  "hours_loop z (n\<lparr>registered_at := r\<rparr>) pattern start ap draws hs g
     = hours_loop z n pattern start ap draws hs g"
  by (induction hs arbitrary: g) (simp_all add: node_hour_registered_at split: sum.splits)

lemma series_loop_registered_at:
  "list_all2 (\<lambda>n n'. \<exists>r. n' = n\<lparr>registered_at := r\<rparr>) nodes nodes' \<Longrightarrow>
     series_loop z start dur ap draws k nodes' g = series_loop z start dur ap draws k nodes g"
proof (induction nodes nodes' arbitrary: k g rule: list_all2_induct)
  case Nil
  then show ?case by simp
next
  case (Cons n ns n' ns')
  from Cons.hyps(1) obtain r where n': "n' = n\<lparr>registered_at := r\<rparr>" by blast
  show ?case
    by (simp add: n' Cons.IH generate_node_time_series_def hours_loop_registered_at
        split: sum.splits option.splits)
qed

text \<open>
  C7 (as amended). With the same generator state, the same inputs and the same draws from
  the random sources, a second run of \<^verbatim>\<open>generate_nodes\<close> at other clock readings returns
  the same nodes except for \<open>registered_at\<close>, which is the clock reading minus the drawn
  offset; \<^verbatim>\<open>generate_time_series\<close> reads neither the clock nor \<open>registered_at\<close>, so it
  returns the same data points for the two node lists.
\<close>

theorem generate_nodes_replay:
  assumes "generate_nodes g count location_pattern pattern_distribution draws clock = Inr (nodes, g1)"
  shows "\<exists>nodes'.
           generate_nodes g count location_pattern pattern_distribution draws clock' = Inr (nodes', g1)
         \<and> length nodes' = length nodes
         \<and> (\<forall>k < length nodes.
              nodes' ! k = (nodes ! k)\<lparr>registered_at := clock' k - reg_offset (draws k)\<rparr>
            \<and> registered_at (nodes ! k) = clock k - reg_offset (draws k))
         \<and> generate_time_series z g2 nodes' start_date duration_hours anomaly_probability hour_draws
             = generate_time_series z g2 nodes start_date duration_hours anomaly_probability hour_draws"
proof -
  let ?areas = "case metropolitan_areas location_pattern of None \<Rightarrow> urban_areas | Some a \<Rightarrow> a"
  let ?pd = "case pattern_distribution of None \<Rightarrow> default_distribution | Some d \<Rightarrow> d"
  let ?nodes' = "map (\<lambda>(i, n). n\<lparr>registered_at := clock' i - reg_offset (draws i)\<rparr>)
                   (zip [0..<nat count] nodes)"
  from assms have loop: "nodes_loop ?areas ?pd draws clock [0..<nat count] g = Inr (nodes, g1)"
    by (simp add: generate_nodes_loop)
  from nodes_loop_length [OF loop] have len: "length nodes = nat count" by simp
  from nodes_loop_clock [OF loop, of clock']
  have run': "generate_nodes g count location_pattern pattern_distribution draws clock'
                = Inr (?nodes', g1)"
    by (simp add: generate_nodes_loop)
  from len have len': "length ?nodes' = length nodes" by simp
  have nth: "?nodes' ! k = (nodes ! k)\<lparr>registered_at := clock' k - reg_offset (draws k)\<rparr>
            \<and> registered_at (nodes ! k) = clock k - reg_offset (draws k)"
    if k: "k < length nodes" for k
  proof -
    from k len have k': "k < length [0..<nat count]" by simp
    from nodes_loop_nth [OF loop k'] k'
    have "registered_at (nodes ! k) = clock k - reg_offset (draws k)"
      by (auto dest: make_node_registered_at)
    moreover from k len
    have "?nodes' ! k = (nodes ! k)\<lparr>registered_at := clock' k - reg_offset (draws k)\<rparr>"
      by simp
    ultimately show ?thesis by simp
  qed
  have "list_all2 (\<lambda>n n'. \<exists>r. n' = n\<lparr>registered_at := r\<rparr>) nodes ?nodes'"
    unfolding list_all2_conv_all_nth using len' nth by auto
  from series_loop_registered_at [OF this]
  have "generate_time_series z g2 ?nodes' start_date duration_hours anomaly_probability hour_draws
      = generate_time_series z g2 nodes start_date duration_hours anomaly_probability hour_draws"
    by (simp add: generate_time_series_def)
  with run' len' nth show ?thesis by blast
qed

lemma ex_nodes_run:
  "\<exists>nodes g1. generate_nodes init_generator 1 ''urban'' None (\<lambda>i. ex_node_draw) clock
                 = Inr (nodes, g1) \<and> length nodes = 1
               \<and> registered_at (nodes ! 0) = clock 0 - 100"
proof -
  have vp: "valid_p (map snd default_distribution)"
    by (simp add: valid_p_def default_distribution_def)
  have us: "\<forall>i \<in> set [0..<nat 1]. unit_sample (pattern_u ((\<lambda>i. ex_node_draw) i))"
    by (simp add: unit_sample_def ex_node_draw_def)
  from nodes_loop_total [OF vp us urban_areas_nonempty] obtain nodes g1
    where loop: "nodes_loop urban_areas default_distribution (\<lambda>i. ex_node_draw) clock
             [0..<nat 1] init_generator = Inr (nodes, g1)" by blast
  from nodes_loop_length [OF loop] have len: "length nodes = 1" by simp
  from nodes_loop_nth [OF loop, of 0]
  have "registered_at (nodes ! 0) = clock 0 - reg_offset ex_node_draw"
    by (auto dest: make_node_registered_at)
  with loop len show ?thesis
    by (simp add: generate_nodes_loop metropolitan_areas_urban ex_node_draw_def)
qed

theorem generate_nodes_replay_witness:
  "\<exists>nodes nodes' g1.
     generate_nodes init_generator 1 ''urban'' None (\<lambda>i. ex_node_draw) (\<lambda>i. 1700000000)
       = Inr (nodes, g1)
   \<and> generate_nodes init_generator 1 ''urban'' None (\<lambda>i. ex_node_draw) (\<lambda>i. 1700086400)
       = Inr (nodes', g1)
   \<and> nodes' ! 0 = (nodes ! 0)\<lparr>registered_at := 1700086300\<rparr>
   \<and> generate_time_series utc init_generator nodes' ex_start 24 0 (\<lambda>k h. ex_hour_draw)
       = generate_time_series utc init_generator nodes ex_start 24 0 (\<lambda>k h. ex_hour_draw)"
proof -
  from ex_nodes_run [of "\<lambda>i. 1700000000"] obtain nodes g1
    where run: "generate_nodes init_generator 1 ''urban'' None (\<lambda>i. ex_node_draw) (\<lambda>i. 1700000000)
                  = Inr (nodes, g1)"
      and len: "length nodes = 1" by blast
  from generate_nodes_replay [OF run, of "\<lambda>i. 1700086400" utc init_generator ex_start 24 0
      "\<lambda>k h. ex_hour_draw"] len run
  show ?thesis by (auto simp: ex_node_draw_def)
qed

text \<open>
  C7, the claim as stated fails: the same call with the same draws, made a day later,
  returns a node with another \<open>registered_at\<close>.
\<close>

theorem generate_nodes_clock_counterexample:
  "\<exists>nodes g1 nodes' g1'.
     generate_nodes init_generator 1 ''urban'' None (\<lambda>i. ex_node_draw) (\<lambda>i. 1700000000)
       = Inr (nodes, g1)
   \<and> generate_nodes init_generator 1 ''urban'' None (\<lambda>i. ex_node_draw) (\<lambda>i. 1700086400)
       = Inr (nodes', g1')
   \<and> registered_at (nodes ! 0) = 1699999900 \<and> registered_at (nodes' ! 0) = 1700086300"
proof -
  from ex_nodes_run [of "\<lambda>i. 1700000000"] obtain nodes g1
    where "generate_nodes init_generator 1 ''urban'' None (\<lambda>i. ex_node_draw) (\<lambda>i. 1700000000)
                  = Inr (nodes, g1)" "registered_at (nodes ! 0) = 1700000000 - 100" by blast
  moreover from ex_nodes_run [of "\<lambda>i. 1700086400"] obtain nodes' g1'
    where "generate_nodes init_generator 1 ''urban'' None (\<lambda>i. ex_node_draw) (\<lambda>i. 1700086400)
                  = Inr (nodes', g1')" "registered_at (nodes' ! 0) = 1700086400 - 100" by blast
  ultimately show ?thesis by auto
qed



































end
